theory Spec2Isabelle
  imports Main "HOL-Library.AList" "HOL-Library.Multiset" "HOL-Library.Char_ord" "HOL-Library.List_Lexorder"
begin

section \<open>Errors and sequencing\<close>

text \<open>
  Every Go function of the operator that can fail returns an \<open>error\<close>; \<open>nil\<close> is
  \<open>None\<close>.  API failures are injected through oracles, so a model can fail wherever the
  cluster can.
\<close>

datatype error = NotFound string | ApiError string | Wrapped string error

type_synonym 's action = "'s \<Rightarrow> error option \<times> 's"

text \<open>\<open>if err := f(); err != nil { return err }\<close> followed by the rest of the body.\<close>

definition andThen :: "'s action \<Rightarrow> 's action \<Rightarrow> 's action" where
  "andThen f g s = (case f s of (Some err, s') \<Rightarrow> (Some err, s') | (None, s') \<Rightarrow> g s')"

definition succeed :: "'s action" where
  "succeed s = (None, s)"

definition whenever :: "bool \<Rightarrow> 's action \<Rightarrow> 's action" where
  "whenever b f = (if b then f else succeed)"

text \<open>A function body that is a chain of \<open>if err := f(); err != nil { return err }\<close>.\<close>

fun inSequence :: "'s action list \<Rightarrow> 's action" where
  "inSequence [] = succeed"
| "inSequence (f # fs) = andThen f (inSequence fs)"

section \<open>Capability gate\<close>

text \<open>
  The four package-level flags of \<open>controllers/argocd\<close>, all initially false, and the
  discovery requests issued so far (oldest first).  \<open>argoutil.VerifyAPI\<close> is outside the
  repository: its answer for each API group is the oracle \<open>discovery\<close>.
\<close>

datatype api = VersionAPI | PrometheusAPI | RouteAPI | TemplateAPI

record capabilities =
  versionAPIFound :: bool
  prometheusAPIFound :: bool
  routeAPIFound :: bool
  templateAPIFound :: bool
  probes :: "api list"

type_synonym discovery = "api \<Rightarrow> error + bool"

definition initialCapabilities :: capabilities where
  "initialCapabilities = \<lparr>versionAPIFound = False, prometheusAPIFound = False,
     routeAPIFound = False, templateAPIFound = False, probes = []\<rparr>"

definition VerifyAPI :: "discovery \<Rightarrow> api \<Rightarrow> capabilities \<Rightarrow> (error + bool) \<times> capabilities" where
  "VerifyAPI d a s = (d a, s\<lparr>probes := probes s @ [a]\<rparr>)"

definition IsVersionAPIAvailable :: "capabilities \<Rightarrow> bool" where
  "IsVersionAPIAvailable s = versionAPIFound s"

definition verifyVersionAPI :: "discovery \<Rightarrow> capabilities action" where
  "verifyVersionAPI d s =
     (case VerifyAPI d VersionAPI s of
        (Inl err, s') \<Rightarrow> (Some err, s')
      | (Inr found, s') \<Rightarrow> (None, s'\<lparr>versionAPIFound := found\<rparr>))"

definition IsRouteAPIAvailable :: "capabilities \<Rightarrow> bool" where
  "IsRouteAPIAvailable s = routeAPIFound s"

definition verifyRouteAPI :: "discovery \<Rightarrow> capabilities action" where
  "verifyRouteAPI d s =
     (case VerifyAPI d RouteAPI s of
        (Inl err, s') \<Rightarrow> (Some err, s')
      | (Inr found, s') \<Rightarrow> (None, s'\<lparr>routeAPIFound := found\<rparr>))"

definition IsPrometheusAPIAvailable :: "capabilities \<Rightarrow> bool" where
  "IsPrometheusAPIAvailable s = prometheusAPIFound s"

definition verifyPrometheusAPI :: "discovery \<Rightarrow> capabilities action" where
  "verifyPrometheusAPI d s =
     (case VerifyAPI d PrometheusAPI s of
        (Inl err, s') \<Rightarrow> (Some err, s')
      | (Inr found, s') \<Rightarrow> (None, s'\<lparr>prometheusAPIFound := found\<rparr>))"

definition IsTemplateAPIAvailable :: "capabilities \<Rightarrow> bool" where
  "IsTemplateAPIAvailable s = templateAPIFound s"

definition verifyTemplateAPI :: "discovery \<Rightarrow> capabilities action" where
  "verifyTemplateAPI d s =
     (case VerifyAPI d TemplateAPI s of
        (Inl err, s') \<Rightarrow> (Some err, s')
      | (Inr found, s') \<Rightarrow> (None, s'\<lparr>templateAPIFound := found\<rparr>))"

text \<open>The four flags of a state, without the request log.\<close>

definition flagsOf :: "capabilities \<Rightarrow> bool \<times> bool \<times> bool \<times> bool" where
  "flagsOf s = (versionAPIFound s, prometheusAPIFound s, routeAPIFound s, templateAPIFound s)"

text \<open>
  \<open>InspectCluster\<close> of \<open>controllers/argocd/TOBEREMOVED.go\<close> (line 370): each probe in
  turn, returning at the first error.
\<close>

definition InspectCluster :: "discovery \<Rightarrow> capabilities action" where
  "InspectCluster d =
     andThen (verifyPrometheusAPI d)
    (andThen (verifyRouteAPI d)
    (andThen (verifyTemplateAPI d)
    (andThen (verifyVersionAPI d)
     succeed)))"

text \<open>
  \<open>InspectCluster\<close> of the refactored package, which calls the probes of
  \<open>pkg/monitoring\<close>, \<open>pkg/networking\<close>, \<open>pkg/workloads\<close> and \<open>pkg/cluster\<close>: every probe is
  run, the last error seen is returned.  Of the four probes only
  \<open>cluster.VerifyVersionAPI\<close> is in the sources (it reads as \<open>verifyVersionAPI\<close> above);
  the probes are parameters.
\<close>

definition recordError :: "'s action \<Rightarrow> (error option \<times> 's) \<Rightarrow> (error option \<times> 's)" where
  "recordError probe r =
     (case probe (snd r) of (Some err, s') \<Rightarrow> (Some err, s') | (None, s') \<Rightarrow> (fst r, s'))"

definition InspectClusterAll ::
  "capabilities action \<Rightarrow> capabilities action \<Rightarrow> capabilities action \<Rightarrow> capabilities action
     \<Rightarrow> capabilities action" where
  "InspectClusterAll verifyPrometheus verifyRoute verifyTemplate verifyVersion s =
     recordError verifyVersion
    (recordError verifyTemplate
    (recordError verifyRoute
    (recordError verifyPrometheus (None, s))))"

section \<open>Strings\<close>

text \<open>
  Go strings are byte sequences, compared byte by byte; \<open>string\<close> is a list of
  8-bit characters with the same order.  The three functions of package \<open>strings\<close> the
  operator calls are given here as the Go library documents them.
\<close>

text \<open>\<open>strings.Split(s, sep)\<close> for a one-byte separator: never empty, \<open>[""]\<close> for \<open>""\<close>.\<close>

fun Split :: "string \<Rightarrow> char \<Rightarrow> string list" where
  "Split [] sep = [[]]"
| "Split (c # s) sep =
     (if c = sep then [] # Split s sep
      else (c # hd (Split s sep)) # tl (Split s sep))"

text \<open>\<open>strings.Join(elems, sep)\<close>.\<close>

fun Join :: "string list \<Rightarrow> string \<Rightarrow> string" where
  "Join [] sep = []"
| "Join [e] sep = e"
| "Join (e # e' # es) sep = e @ sep @ Join (e' # es) sep"

text \<open>
  The UTF-8 encodings of the code points for which \<open>unicode.IsSpace\<close> holds: tab, line
  feed, vertical tab, form feed, carriage return, space, U+0085, U+00A0, U+1680,
  U+2000 to U+200A, U+2028, U+2029, U+202F, U+205F and U+3000.
\<close>

definition spaceEncodings :: "string list" where
  "spaceEncodings =
     [[CHR 0x09], [CHR 0x0A], [CHR 0x0B], [CHR 0x0C], [CHR 0x0D], [CHR 0x20],
      [CHR 0xC2, CHR 0x85], [CHR 0xC2, CHR 0xA0],
      [CHR 0xE1, CHR 0x9A, CHR 0x80],
      [CHR 0xE2, CHR 0x80, CHR 0x80], [CHR 0xE2, CHR 0x80, CHR 0x81],
      [CHR 0xE2, CHR 0x80, CHR 0x82], [CHR 0xE2, CHR 0x80, CHR 0x83],
      [CHR 0xE2, CHR 0x80, CHR 0x84], [CHR 0xE2, CHR 0x80, CHR 0x85],
      [CHR 0xE2, CHR 0x80, CHR 0x86], [CHR 0xE2, CHR 0x80, CHR 0x87],
      [CHR 0xE2, CHR 0x80, CHR 0x88], [CHR 0xE2, CHR 0x80, CHR 0x89],
      [CHR 0xE2, CHR 0x80, CHR 0x8A],
      [CHR 0xE2, CHR 0x80, CHR 0xA8], [CHR 0xE2, CHR 0x80, CHR 0xA9],
      [CHR 0xE2, CHR 0x80, CHR 0xAF],
      [CHR 0xE2, CHR 0x81, CHR 0x9F],
      [CHR 0xE3, CHR 0x80, CHR 0x80]]"

text \<open>Width in bytes of the white-space rune a string starts with; 0 when there is none.\<close>

definition leadingSpace :: "string \<Rightarrow> nat" where
  "leadingSpace s =
     (case find (\<lambda>p. take (length p) s = p) spaceEncodings of
        Some p \<Rightarrow> length p
      | None \<Rightarrow> 0)"

function TrimLeftSpace :: "string \<Rightarrow> string" where
  "TrimLeftSpace s =
     (if leadingSpace s = 0 then s else TrimLeftSpace (drop (leadingSpace s) s))"
  by pat_completeness auto
termination
proof (relation "measure length")
  show "wf (measure length)"
    by simp
next
  fix s :: string
  assume width: "leadingSpace s \<noteq> 0"
  then have "s \<noteq> []"
    by (auto simp: leadingSpace_def spaceEncodings_def split: option.splits if_splits)
  with width show "(drop (leadingSpace s) s, s) \<in> measure length"
    by simp
qed

text \<open>
  \<open>strings.TrimSpace\<close>: white-space runes are cut from the front, then from the back.
  A white-space rune at the back is one of the encodings read backwards.
\<close>

definition trailingSpace :: "string \<Rightarrow> nat" where
  "trailingSpace s =
     (case find (\<lambda>p. take (length p) (rev s) = rev p) spaceEncodings of
        Some p \<Rightarrow> length p
      | None \<Rightarrow> 0)"

function TrimRightSpace :: "string \<Rightarrow> string" where
  "TrimRightSpace s =
     (if trailingSpace s = 0 then s
      else TrimRightSpace (take (length s - trailingSpace s) s))"
  by pat_completeness auto
termination
proof (relation "measure length")
  show "wf (measure length)"
    by simp
next
  fix s :: string
  assume width: "trailingSpace s \<noteq> 0"
  then have "s \<noteq> []"
    by (auto simp: trailingSpace_def spaceEncodings_def split: option.splits if_splits)
  with width show "(take (length s - trailingSpace s) s, s) \<in> measure length"
    by simp
qed

declare TrimLeftSpace.simps [simp del] TrimRightSpace.simps [simp del]

definition TrimSpace :: "string \<Rightarrow> string" where
  "TrimSpace s = TrimRightSpace (TrimLeftSpace s)"

text \<open>
  A string made of white-space runes only: empty, or one of the encodings followed by
  such a string.
\<close>

function whiteSpace :: "string \<Rightarrow> bool" where
  "whiteSpace s =
     (if s = [] then True
      else list_ex (\<lambda>p. if take (length p) s = p then whiteSpace (drop (length p) s) else False)
             spaceEncodings)"
  by pat_completeness auto
termination
proof (relation "measure length")
  show "wf (measure length)"
    by simp
next
  fix s p :: string
  assume "s \<noteq> []" and "p \<in> set spaceEncodings"
  then show "(drop (length p) s, s) \<in> measure length"
    by (auto simp: spaceEncodings_def)
qed

declare whiteSpace.simps [simp del]

section \<open>Namespace lists\<close>

text \<open>\<open>splitList\<close>: split at commas and trim every element in place.\<close>

definition splitList :: "string \<Rightarrow> string list" where
  "splitList s = map TrimSpace (Split s CHR '','')"

text \<open>
  \<open>allowedNamespace\<close> (the same body as \<open>IsClusterConfigNs\<close> of the refactored
  package): the \<open>range\<close> loop returns true at the first element equal to \<open>current\<close>.
\<close>

definition allowedNamespace :: "string \<Rightarrow> string \<Rightarrow> bool" where
  "allowedNamespace current namespaces =
     (let clusterConfigNamespaces = splitList namespaces in
      if length clusterConfigNamespaces > 0 then
        (if clusterConfigNamespaces ! 0 = ''*'' then True
         else list_ex (\<lambda>n. n = current) clusterConfigNamespaces)
      else False)"

text \<open>\<open>removeString\<close>: the elements different from \<open>s\<close>, in order.\<close>

fun removeString :: "string list \<Rightarrow> string \<Rightarrow> string list" where
  "removeString [] s = []"
| "removeString (item # slice) s =
     (if item = s then removeString slice s else item # removeString slice s)"

section \<open>Namespaces and the controller client\<close>

definition ArgoCDManagedByLabel :: string where
  "ArgoCDManagedByLabel = ''argocd.argoproj.io/managed-by''"

definition ArgoCDDeletionFinalizer :: string where
  "ArgoCDDeletionFinalizer = ''argoproj.io/finalizer''"

text \<open>
  A namespace object: its name and its label map, as an association list read with
  \<open>map_of\<close>.  Go reads a nil map as an empty one, so both are \<open>[]\<close>.
\<close>

record namespace =
  nsName :: string
  nsLabels :: "(string \<times> string) list"

text \<open>The fields of the \<open>ArgoCD\<close> custom resource the lifecycle code reads.\<close>

record ArgoCD =
  crName :: string
  crNamespace :: string
  Finalizers :: "string list"
  hasApplicationSet :: bool
  hasSSO :: bool

text \<open>
  The cluster as \<open>r.Client\<close> sees it: the namespace objects, the \<open>ArgoCD\<close> objects, and
  for each kind of request whether the API server fails it (per namespace name for Get
  and Update of a namespace).  \<open>logged\<close> collects the errors passed to \<open>log.Error\<close>.
\<close>

record cluster =
  namespaceObjects :: "namespace list"
  instances :: "ArgoCD list"
  listFault :: "error option"
  getFault :: "string \<Rightarrow> error option"
  updateFault :: "string \<Rightarrow> error option"
  updateArgoCDFault :: "error option"
  logged :: "error list"

text \<open>\<open>Client.List\<close> of namespaces with \<open>client.MatchingLabels{key: val}\<close>.\<close>

definition clientList :: "cluster \<Rightarrow> string \<Rightarrow> string \<Rightarrow> error + namespace list" where
  "clientList c key val =
     (case listFault c of
        Some err \<Rightarrow> Inl err
      | None \<Rightarrow> Inr (filter (\<lambda>n. map_of (nsLabels n) key = Some val) (namespaceObjects c)))"



text \<open>\<open>Client.Update\<close> of an \<open>ArgoCD\<close> object, found by name and namespace.\<close>

definition clientUpdateArgoCD :: "ArgoCD \<Rightarrow> cluster action" where
  "clientUpdateArgoCD obj c =
     (case updateArgoCDFault c of
        Some err \<Rightarrow> (Some err, c)
      | None \<Rightarrow>
          if list_ex (\<lambda>a. crName a = crName obj \<and> crNamespace a = crNamespace obj) (instances c)
          then (None, c\<lparr>instances :=
                  map (\<lambda>a. if crName a = crName obj \<and> crNamespace a = crNamespace obj
                            then obj else a) (instances c)\<rparr>)
          else (Some (NotFound (crName obj)), c))"

text \<open>
  The reconciler: its client and \<open>ManagedNamespaces\<close>, a \<open>*corev1.NamespaceList\<close> that is
  nil until first set.
\<close>

record ReconcileArgoCD =
  Client :: cluster
  ManagedNamespaces :: "namespace list option"

definition setManagedNamespaces :: "ArgoCD \<Rightarrow> ReconcileArgoCD action" where
  "setManagedNamespaces cr r =
     (case clientList (Client r) ArgoCDManagedByLabel (crNamespace cr) of
        Inl err \<Rightarrow> (Some err, r)
      | Inr items \<Rightarrow>
          (None, r\<lparr>ManagedNamespaces :=
                     Some (items @ [\<lparr>nsName = crNamespace cr, nsLabels = []\<rparr>])\<rparr>))"



text \<open>
  \<open>removeDeletionFinalizer\<close> and \<open>addDeletionFinalizer\<close>: the finalizer list of the
  object in hand is changed first, then the object is written; the updated object is
  returned with the result.
\<close>

definition removeDeletionFinalizer ::
  "ArgoCD \<Rightarrow> ReconcileArgoCD \<Rightarrow> error option \<times> ArgoCD \<times> ReconcileArgoCD" where
  "removeDeletionFinalizer argocd r =
     (let argocd' = argocd\<lparr>Finalizers := removeString (Finalizers argocd) ArgoCDDeletionFinalizer\<rparr> in
      case clientUpdateArgoCD argocd' (Client r) of
        (Some err, c') \<Rightarrow>
          (Some (Wrapped (''failed to remove deletion finalizer from '' @ crName argocd) err),
           argocd', r\<lparr>Client := c'\<rparr>)
      | (None, c') \<Rightarrow> (None, argocd', r\<lparr>Client := c'\<rparr>))"

definition addDeletionFinalizer ::
  "ArgoCD \<Rightarrow> ReconcileArgoCD \<Rightarrow> error option \<times> ArgoCD \<times> ReconcileArgoCD" where
  "addDeletionFinalizer argocd r =
     (let argocd' = argocd\<lparr>Finalizers := Finalizers argocd @ [ArgoCDDeletionFinalizer]\<rparr> in
      case clientUpdateArgoCD argocd' (Client r) of
        (Some err, c') \<Rightarrow>
          (Some (Wrapped (''failed to add deletion finalizer for '' @ crName argocd) err),
           argocd', r\<lparr>Client := c'\<rparr>)
      | (None, c') \<Rightarrow> (None, argocd', r\<lparr>Client := c'\<rparr>))"


text \<open>
  An example cluster: instance namespace \<open>ns1\<close>, namespace \<open>ns2\<close> labelled as managed by
  \<open>ns1\<close>, an unrelated namespace \<open>ns3\<close>.  Every request succeeds, except that in
  \<open>updateFailing\<close> every namespace Update is rejected.
\<close>

definition exampleCluster :: cluster where
  "exampleCluster =
     \<lparr>namespaceObjects =
        [\<lparr>nsName = ''ns1'', nsLabels = []\<rparr>,
         \<lparr>nsName = ''ns2'', nsLabels = [(''argocd.argoproj.io/managed-by'', ''ns1'')]\<rparr>,
         \<lparr>nsName = ''ns3'', nsLabels = [(''argocd.argoproj.io/managed-by'', ''other'')]\<rparr>],
      instances = [],
      listFault = None,
      getFault = (\<lambda>n. None),
      updateFault = (\<lambda>n. None),
      updateArgoCDFault = None,
      logged = []\<rparr>"


definition exampleInstance :: ArgoCD where
  "exampleInstance =
     \<lparr>crName = ''demo'', crNamespace = ''ns1'', Finalizers = [''argoproj.io/finalizer''],
      hasApplicationSet = False, hasSSO = False\<rparr>"



section \<open>Roles, role bindings and secrets through the typed client\<close>

definition ArgoCDKeyPartOf :: string where
  "ArgoCDKeyPartOf = ''app.kubernetes.io/part-of''"

definition ArgoCDAppName :: string where
  "ArgoCDAppName = ''argocd''"

definition ArgoCDSecretTypeLabel :: string where
  "ArgoCDSecretTypeLabel = ''argocd.argoproj.io/secret-type''"

text \<open>
  A namespaced object (Role, RoleBinding or Secret): the namespace it lives in, its name,
  its labels and, for a secret, its \<open>Data\<close> map.
\<close>

record object =
  objNamespace :: string
  objName :: string
  objLabels :: "(string \<times> string) list"
  objData :: "(string \<times> string) list"

text \<open>The requests \<open>kubernetes.Interface\<close> is asked for, with namespace and name.\<close>

datatype request =
    ListRoles string
  | DeleteRole string string
  | ListRoleBindings string
  | DeleteRoleBinding string string
  | ListSecrets string
  | UpdateSecret string string

text \<open>
  The cluster behind the typed client: the stored objects, the requests the API server
  fails, whether \<open>initK8sClient\<close> can build a client, the requests issued so far (oldest
  first) and the errors passed to \<open>log.Error\<close>.
\<close>

record kube =
  roles :: "object list"
  roleBindings :: "object list"
  secrets :: "object list"
  fault :: "request \<Rightarrow> error option"
  initFault :: "error option"
  requests :: "request list"
  errorLog :: "error list"

definition matching :: "string \<Rightarrow> string \<times> string \<Rightarrow> object \<Rightarrow> bool" where
  "matching ns selector obj =
     (objNamespace obj = ns \<and> map_of (objLabels obj) (fst selector) = Some (snd selector))"

definition issue :: "request \<Rightarrow> kube \<Rightarrow> kube" where
  "issue req k = k\<lparr>requests := requests k @ [req]\<rparr>"

definition logError :: "error \<Rightarrow> kube \<Rightarrow> kube" where
  "logError err k = k\<lparr>errorLog := errorLog k @ [err]\<rparr>"

definition listRoles :: "string \<Rightarrow> string \<times> string \<Rightarrow> kube \<Rightarrow> (error + object list) \<times> kube" where
  "listRoles ns selector k =
     (case fault k (ListRoles ns) of
        Some err \<Rightarrow> (Inl err, issue (ListRoles ns) k)
      | None \<Rightarrow> (Inr (filter (matching ns selector) (roles k)), issue (ListRoles ns) k))"

definition listRoleBindings ::
  "string \<Rightarrow> string \<times> string \<Rightarrow> kube \<Rightarrow> (error + object list) \<times> kube" where
  "listRoleBindings ns selector k =
     (case fault k (ListRoleBindings ns) of
        Some err \<Rightarrow> (Inl err, issue (ListRoleBindings ns) k)
      | None \<Rightarrow>
          (Inr (filter (matching ns selector) (roleBindings k)), issue (ListRoleBindings ns) k))"

definition listSecrets :: "string \<Rightarrow> string \<times> string \<Rightarrow> kube \<Rightarrow> (error + object list) \<times> kube" where
  "listSecrets ns selector k =
     (case fault k (ListSecrets ns) of
        Some err \<Rightarrow> (Inl err, issue (ListSecrets ns) k)
      | None \<Rightarrow> (Inr (filter (matching ns selector) (secrets k)), issue (ListSecrets ns) k))"

definition named :: "string \<Rightarrow> string \<Rightarrow> object \<Rightarrow> bool" where
  "named ns name obj = (objNamespace obj = ns \<and> objName obj = name)"

definition deleteRole :: "string \<Rightarrow> string \<Rightarrow> kube action" where
  "deleteRole ns name k =
     (case fault k (DeleteRole ns name) of
        Some err \<Rightarrow> (Some err, issue (DeleteRole ns name) k)
      | None \<Rightarrow>
          if list_ex (named ns name) (roles k)
          then (None, issue (DeleteRole ns name)
                        (k\<lparr>roles := filter (\<lambda>obj. \<not> named ns name obj) (roles k)\<rparr>))
          else (Some (NotFound name), issue (DeleteRole ns name) k))"

definition deleteRoleBinding :: "string \<Rightarrow> string \<Rightarrow> kube action" where
  "deleteRoleBinding ns name k =
     (case fault k (DeleteRoleBinding ns name) of
        Some err \<Rightarrow> (Some err, issue (DeleteRoleBinding ns name) k)
      | None \<Rightarrow>
          if list_ex (named ns name) (roleBindings k)
          then (None, issue (DeleteRoleBinding ns name)
                        (k\<lparr>roleBindings := filter (\<lambda>obj. \<not> named ns name obj) (roleBindings k)\<rparr>))
          else (Some (NotFound name), issue (DeleteRoleBinding ns name) k))"

definition updateSecret :: "string \<Rightarrow> object \<Rightarrow> kube action" where
  "updateSecret ns obj k =
     (case fault k (UpdateSecret ns (objName obj)) of
        Some err \<Rightarrow> (Some err, issue (UpdateSecret ns (objName obj)) k)
      | None \<Rightarrow>
          if list_ex (named ns (objName obj)) (secrets k)
          then (None, issue (UpdateSecret ns (objName obj))
                        (k\<lparr>secrets := map (\<lambda>old. if named ns (objName obj) old then obj else old)
                                         (secrets k)\<rparr>))
          else (Some (NotFound (objName obj)), issue (UpdateSecret ns (objName obj)) k))"

definition initK8sClient :: "kube \<Rightarrow> (error + unit) \<times> kube" where
  "initK8sClient k =
     (case initFault k of
        Some err \<Rightarrow> (Inl err, logError err k)
      | None \<Rightarrow> (Inr (), k))"

subsection \<open>deleteRBACsForNamespace\<close>

text \<open>The two delete loops: a failed delete is logged and the loop goes on.\<close>

fun deleteRoles :: "string \<Rightarrow> object list \<Rightarrow> kube \<Rightarrow> kube" where
  "deleteRoles sourceNS [] k = k"
| "deleteRoles sourceNS (role # items) k =
     (case deleteRole sourceNS (objName role) k of
        (Some err, k') \<Rightarrow> deleteRoles sourceNS items (logError err k')
      | (None, k') \<Rightarrow> deleteRoles sourceNS items k')"

fun deleteRoleBindings :: "string \<Rightarrow> object list \<Rightarrow> kube \<Rightarrow> kube" where
  "deleteRoleBindings sourceNS [] k = k"
| "deleteRoleBindings sourceNS (roleBinding # items) k =
     (case deleteRoleBinding sourceNS (objName roleBinding) k of
        (Some err, k') \<Rightarrow> deleteRoleBindings sourceNS items (logError err k')
      | (None, k') \<Rightarrow> deleteRoleBindings sourceNS items k')"

definition deleteRBACsForNamespace :: "string \<Rightarrow> string \<Rightarrow> kube action" where
  "deleteRBACsForNamespace ownerNS sourceNS k =
     (case listRoles sourceNS (ArgoCDKeyPartOf, ArgoCDAppName) k of
        (Inl err, k1) \<Rightarrow> (Some err, logError err k1)
      | (Inr roleItems, k1) \<Rightarrow>
          (let k2 = deleteRoles sourceNS roleItems k1 in
           case listRoleBindings sourceNS (ArgoCDKeyPartOf, ArgoCDAppName) k2 of
             (Inl err, k3) \<Rightarrow> (Some err, logError err k3)
           | (Inr roleBindingItems, k3) \<Rightarrow>
               (None, deleteRoleBindings sourceNS roleBindingItems k3)))"

subsection \<open>deleteManagedNamespaceFromClusterSecret\<close>

text \<open>
  The inner loop over the entries of the stored list.  \<open>result\<close> starts empty; the
  append, the sort and the write to \<open>secret.Data["namespaces"]\<close> all sit after the
  \<open>continue\<close>, inside the loop body.
\<close>

fun removeNamespaceLoop ::
  "string \<Rightarrow> string list \<Rightarrow> string list \<times> (string \<times> string) list
     \<Rightarrow> string list \<times> (string \<times> string) list" where
  "removeNamespaceLoop sourceNS [] (result, secretData) = (result, secretData)"
| "removeNamespaceLoop sourceNS (n # namespaceList) (result, secretData) =
     (if TrimSpace n = sourceNS
      then removeNamespaceLoop sourceNS namespaceList (result, secretData)
      else
        (let result' = sort (result @ [TrimSpace n]) in
         removeNamespaceLoop sourceNS namespaceList
           (result', AList.update ''namespaces'' (Join result' '','') secretData)))"

text \<open>\<open>string(secret.Data[key])\<close>: the empty string when the key is missing.\<close>

definition dataString :: "object \<Rightarrow> string \<Rightarrow> string" where
  "dataString secret key = (case map_of (objData secret) key of None \<Rightarrow> [] | Some v \<Rightarrow> v)"

text \<open>
  The loop over the listed secrets.  \<open>common.ArgoCDDefaultServer\<close> is not among the
  sources; it is the parameter \<open>defaultServer\<close>.
\<close>

fun clusterSecretsLoop :: "string \<Rightarrow> string \<Rightarrow> string \<Rightarrow> object list \<Rightarrow> kube action" where
  "clusterSecretsLoop defaultServer ownerNS sourceNS [] k = (None, k)"
| "clusterSecretsLoop defaultServer ownerNS sourceNS (secret # items) k =
     (if dataString secret ''server'' \<noteq> defaultServer
      then clusterSecretsLoop defaultServer ownerNS sourceNS items k
      else
        (case map_of (objData secret) ''namespaces'' of
           None \<Rightarrow> clusterSecretsLoop defaultServer ownerNS sourceNS items k
         | Some stored \<Rightarrow>
             (case updateSecret ownerNS
                     (secret\<lparr>objData :=
                        snd (removeNamespaceLoop sourceNS (Split stored CHR '','')
                               ([], objData secret))\<rparr>) k of
                (Some err, k') \<Rightarrow> (Some err, logError err k')
              | (None, k') \<Rightarrow> clusterSecretsLoop defaultServer ownerNS sourceNS items k')))"

definition deleteManagedNamespaceFromClusterSecret ::
  "string \<Rightarrow> string \<Rightarrow> string \<Rightarrow> kube action" where
  "deleteManagedNamespaceFromClusterSecret defaultServer ownerNS sourceNS k =
     (case listSecrets ownerNS (ArgoCDSecretTypeLabel, ''cluster'') k of
        (Inl err, k1) \<Rightarrow> (Some err, logError err k1)
      | (Inr items, k1) \<Rightarrow> clusterSecretsLoop defaultServer ownerNS sourceNS items k1)"

subsection \<open>namespaceFilterPredicate\<close>

text \<open>
  The two functions of the predicate.  An update event carries the old and the new
  namespace object, a delete event the deleted one.  Each returns whether the event is
  passed on to the reconciler.  Errors of the two cleanup calls are logged only.
\<close>

definition logged_only :: "kube action \<Rightarrow> kube \<Rightarrow> kube" where
  "logged_only f k = (case f k of (Some err, k') \<Rightarrow> logError err k' | (None, k') \<Rightarrow> k')"

definition cleanupOldOwner :: "string \<Rightarrow> string \<Rightarrow> string \<Rightarrow> kube \<Rightarrow> kube" where
  "cleanupOldOwner defaultServer ownerNS name k =
     logged_only (deleteManagedNamespaceFromClusterSecret defaultServer ownerNS name)
       (logged_only (deleteRBACsForNamespace ownerNS name) k)"

definition UpdateFunc :: "string \<Rightarrow> namespace \<Rightarrow> namespace \<Rightarrow> kube \<Rightarrow> bool \<times> kube" where
  "UpdateFunc defaultServer ObjectOld ObjectNew k =
     (case map_of (nsLabels ObjectNew) ArgoCDManagedByLabel of
        Some valNew \<Rightarrow>
          (case map_of (nsLabels ObjectOld) ArgoCDManagedByLabel of
             Some valOld \<Rightarrow>
               if valOld \<noteq> valNew then
                 (case initK8sClient k of
                    (Inl err, k') \<Rightarrow> (False, k')
                  | (Inr _, k') \<Rightarrow>
                      (True, cleanupOldOwner defaultServer valOld (nsName ObjectOld) k'))
               else (True, k)
           | None \<Rightarrow> (True, k))
      | None \<Rightarrow>
          (case map_of (nsLabels ObjectOld) ArgoCDManagedByLabel of
             Some ns \<Rightarrow>
               if ns \<noteq> [] then
                 (case initK8sClient k of
                    (Inl err, k') \<Rightarrow> (False, k')
                  | (Inr _, k') \<Rightarrow>
                      (False, cleanupOldOwner defaultServer ns (nsName ObjectOld) k'))
               else (False, k)
           | None \<Rightarrow> (False, k)))"

definition DeleteFunc :: "string \<Rightarrow> namespace \<Rightarrow> kube \<Rightarrow> bool \<times> kube" where
  "DeleteFunc defaultServer Object k =
     (case map_of (nsLabels Object) ArgoCDManagedByLabel of
        Some ns \<Rightarrow>
          if ns \<noteq> [] then
            (case initK8sClient k of
               (Inl err, k') \<Rightarrow> (False, k')
             | (Inr _, k') \<Rightarrow>
                 (False, logged_only
                           (deleteManagedNamespaceFromClusterSecret defaultServer ns (nsName Object))
                           k'))
          else (False, k)
      | None \<Rightarrow> (False, k))"

text \<open>Whether request \<open>a\<close> is issued, and issued before the first request \<open>b\<close>.\<close>

definition precedes :: "'a \<Rightarrow> 'a \<Rightarrow> 'a list \<Rightarrow> bool" where
  "precedes a b xs = (a \<in> set (takeWhile (\<lambda>x. x \<noteq> b) xs) \<and> b \<in> set xs)"

text \<open>The requests that read or delete Roles and RoleBindings.\<close>

fun rbacRequest :: "request \<Rightarrow> bool" where
  "rbacRequest (ListRoles ns) = True"
| "rbacRequest (DeleteRole ns name) = True"
| "rbacRequest (ListRoleBindings ns) = True"
| "rbacRequest (DeleteRoleBinding ns name) = True"
| "rbacRequest (ListSecrets ns) = False"
| "rbacRequest (UpdateSecret ns name) = False"

text \<open>
  An example: owner namespace \<open>ns1\<close> holds the cluster secret of the instance, listing
  \<open>ns1\<close> and \<open>ns2\<close>; the managed namespace \<open>ns2\<close> holds one Role and one RoleBinding of
  the platform.  In \<open>onlyEntry\<close> the secret lists \<open>ns2\<close> alone.
\<close>

definition exampleSecret :: "string \<Rightarrow> string \<Rightarrow> object" where
  "exampleSecret server stored =
     \<lparr>objNamespace = ''ns1'', objName = ''demo-default-cluster-config'',
      objLabels = [(''argocd.argoproj.io/secret-type'', ''cluster'')],
      objData = [(''server'', server), (''namespaces'', stored)]\<rparr>"

definition exampleKube :: "string \<Rightarrow> string \<Rightarrow> kube" where
  "exampleKube server stored =
     \<lparr>roles = [\<lparr>objNamespace = ''ns2'', objName = ''demo-argocd-server'',
                objLabels = [(''app.kubernetes.io/part-of'', ''argocd'')], objData = []\<rparr>],
      roleBindings = [\<lparr>objNamespace = ''ns2'', objName = ''demo-argocd-server'',
                objLabels = [(''app.kubernetes.io/part-of'', ''argocd'')], objData = []\<rparr>],
      secrets = [exampleSecret server stored],
      fault = (\<lambda>req. None),
      initFault = None,
      requests = [],
      errorLog = []\<rparr>"

definition managedNamespaceNs2 :: namespace where
  "managedNamespaceNs2 =
     \<lparr>nsName = ''ns2'', nsLabels = [(''argocd.argoproj.io/managed-by'', ''ns1'')]\<rparr>"

text \<open>
  The example once \<open>ns2\<close> is gone from the cluster: nothing is left inside it, the
  cluster secret of \<open>ns1\<close> still lists it.
\<close>

definition emptiedKube :: "string \<Rightarrow> string \<Rightarrow> kube" where
  "emptiedKube server stored = (exampleKube server stored)\<lparr>roles := [], roleBindings := []\<rparr>"

section \<open>The ordered reconcilers\<close>

text \<open>
  The per-kind reconcilers are outside this development: each is a step that is
  invoked, recorded in the order of invocation, and succeeds or fails as the oracle
  \<open>outcome\<close> says.
\<close>

definition invoke :: "('a \<Rightarrow> error option) \<Rightarrow> 'a \<Rightarrow> 'a list action" where
  "invoke outcome step calls = (outcome step, calls @ [step])"

subsection \<open>reconcileResources\<close>

text \<open>The methods of \<open>ReconcileArgoCD\<close> called by \<open>reconcileResources\<close>.\<close>

datatype reconciler =
    reconcileStatus
  | reconcileRoles
  | reconcileRoleBindings
  | reconcileServiceAccounts
  | reconcileCASecret
  | reconcileCAConfigMap
  | reconcileSecrets
  | reconcileConfigMaps
  | reconcileServices
  | reconcileDeployments
  | reconcileStatefulSets
  | reconcileAutoscalers
  | reconcileIngresses
  | reconcileRoutes
  | reconcilePrometheus
  | reconcileMetricsServiceMonitor
  | reconcileRepoServerServiceMonitor
  | reconcileServerMetricsServiceMonitor
  | reconcileApplicationSetController
  | reconcileRepoServerTLSSecret
  | reconcileSSO

definition reconcileCertificateAuthority ::
  "(reconciler \<Rightarrow> error option) \<Rightarrow> reconciler list action" where
  "reconcileCertificateAuthority outcome =
     inSequence [invoke outcome reconcileCASecret, invoke outcome reconcileCAConfigMap]"

text \<open>
  \<open>reconcileResources\<close> of \<open>controllers/argocd/TOBEREMOVED.go\<close> (line 2934).  The two
  capability flags are read from the package state, \<open>cr.Spec.ApplicationSet != nil\<close> and
  \<open>cr.Spec.SSO != nil\<close> from the instance.
\<close>

definition reconcileResources ::
  "(reconciler \<Rightarrow> error option) \<Rightarrow> capabilities \<Rightarrow> ArgoCD \<Rightarrow> reconciler list action" where
  "reconcileResources outcome caps cr =
     inSequence
       [invoke outcome reconcileStatus,
        invoke outcome reconcileRoles,
        invoke outcome reconcileRoleBindings,
        invoke outcome reconcileServiceAccounts,
        reconcileCertificateAuthority outcome,
        invoke outcome reconcileSecrets,
        invoke outcome reconcileConfigMaps,
        invoke outcome reconcileServices,
        invoke outcome reconcileDeployments,
        invoke outcome reconcileStatefulSets,
        invoke outcome reconcileAutoscalers,
        invoke outcome reconcileIngresses,
        whenever (IsRouteAPIAvailable caps) (invoke outcome reconcileRoutes),
        whenever (IsPrometheusAPIAvailable caps)
          (inSequence
             [invoke outcome reconcilePrometheus,
              invoke outcome reconcileMetricsServiceMonitor,
              invoke outcome reconcileRepoServerServiceMonitor,
              invoke outcome reconcileServerMetricsServiceMonitor]),
        whenever (hasApplicationSet cr) (invoke outcome reconcileApplicationSetController),
        invoke outcome reconcileRepoServerTLSSecret,
        whenever (hasSSO cr) (invoke outcome reconcileSSO)]"

text \<open>The order of invocation written out, for given flags and instance.\<close>

definition reconcileOrder :: "capabilities \<Rightarrow> ArgoCD \<Rightarrow> reconciler list" where
  "reconcileOrder caps cr =
     [reconcileStatus, reconcileRoles, reconcileRoleBindings, reconcileServiceAccounts,
      reconcileCASecret, reconcileCAConfigMap, reconcileSecrets, reconcileConfigMaps,
      reconcileServices, reconcileDeployments, reconcileStatefulSets, reconcileAutoscalers,
      reconcileIngresses]
     @ (if routeAPIFound caps then [reconcileRoutes] else [])
     @ (if prometheusAPIFound caps
        then [reconcilePrometheus, reconcileMetricsServiceMonitor,
              reconcileRepoServerServiceMonitor, reconcileServerMetricsServiceMonitor]
        else [])
     @ (if hasApplicationSet cr then [reconcileApplicationSetController] else [])
     @ [reconcileRepoServerTLSSecret]
     @ (if hasSSO cr then [reconcileSSO] else [])"

text \<open>
  Running a list of steps in order until one fails: the steps up to and including the
  first failing one are invoked, and its error is the result.
\<close>

fun untilFirstError :: "('a \<Rightarrow> error option) \<Rightarrow> 'a list \<Rightarrow> 'a list action" where
  "untilFirstError outcome [] calls = (None, calls)"
| "untilFirstError outcome (step # steps) calls =
     (case outcome step of
        Some err \<Rightarrow> (Some err, calls @ [step])
      | None \<Rightarrow> untilFirstError outcome steps (calls @ [step]))"

subsection \<open>ServerReconciler\<close>

text \<open>The resource kinds of the server component, and what is done to one.\<close>

datatype resource =
    ServiceAccount
  | ClusterRole
  | ClusterRoleBinding
  | Roles
  | RoleBindings
  | Deployment
  | Service
  | HorizontalPodAutoscaler
  | Ingresses
  | Route

datatype operation = Reconciles resource | Deletes resource

fun resourceOf :: "operation \<Rightarrow> resource" where
  "resourceOf (Reconciles x) = x"
| "resourceOf (Deletes x) = x"

text \<open>
  \<open>ServerReconciler.DeleteResources\<close>; \<open>routeAvailable\<close> is
  \<open>networking.IsRouteAPIAvailable()\<close>.
\<close>

definition DeleteResources :: "(operation \<Rightarrow> error option) \<Rightarrow> bool \<Rightarrow> operation list action" where
  "DeleteResources outcome routeAvailable =
     inSequence
       [whenever routeAvailable (invoke outcome (Deletes Route)),
        invoke outcome (Deletes Ingresses),
        invoke outcome (Deletes HorizontalPodAutoscaler),
        invoke outcome (Deletes Service),
        invoke outcome (Deletes Deployment),
        invoke outcome (Deletes RoleBindings),
        invoke outcome (Deletes Roles),
        invoke outcome (Deletes ClusterRoleBinding),
        invoke outcome (Deletes ClusterRole),
        invoke outcome (Deletes ServiceAccount)]"

text \<open>
  \<open>ServerReconciler.Reconcile\<close>.  \<open>getNamespace\<close> is the result of
  \<open>cluster.GetNamespace\<close> for the instance's namespace: an error, or whether the
  namespace has a deletion timestamp.
\<close>

definition Reconcile ::
  "(operation \<Rightarrow> error option) \<Rightarrow> error + bool \<Rightarrow> bool \<Rightarrow> operation list action" where
  "Reconcile outcome getNamespace routeAvailable =
     (case getNamespace of
        Inl err \<Rightarrow> (\<lambda>calls. (Some err, calls))
      | Inr deleting \<Rightarrow>
          if deleting then DeleteResources outcome routeAvailable
          else
            inSequence
              [invoke outcome (Reconciles ServiceAccount),
               invoke outcome (Reconciles ClusterRole),
               invoke outcome (Reconciles ClusterRoleBinding),
               invoke outcome (Reconciles Roles),
               invoke outcome (Reconciles RoleBindings),
               invoke outcome (Reconciles Deployment),
               invoke outcome (Reconciles Service),
               invoke outcome (Reconciles HorizontalPodAutoscaler),
               invoke outcome (Reconciles Ingresses),
               whenever routeAvailable (invoke outcome (Reconciles Route))])"

text \<open>The order of \<open>ServerReconciler.Reconcile\<close> on a live namespace, written out.\<close>

definition serverOrder :: "bool \<Rightarrow> resource list" where
  "serverOrder routeAvailable =
     [ServiceAccount, ClusterRole, ClusterRoleBinding, Roles, RoleBindings, Deployment,
      Service, HorizontalPodAutoscaler, Ingresses]
     @ (if routeAvailable then [Route] else [])"

section \<open>Properties\<close>

subsection \<open>Capability gate\<close>

lemma verify_probe_simps:
  "verifyVersionAPI d s = (case d VersionAPI of
       Inl err \<Rightarrow> (Some err, s\<lparr>probes := probes s @ [VersionAPI]\<rparr>)
     | Inr found \<Rightarrow> (None, s\<lparr>probes := probes s @ [VersionAPI], versionAPIFound := found\<rparr>))"
  "verifyRouteAPI d s = (case d RouteAPI of
       Inl err \<Rightarrow> (Some err, s\<lparr>probes := probes s @ [RouteAPI]\<rparr>)
     | Inr found \<Rightarrow> (None, s\<lparr>probes := probes s @ [RouteAPI], routeAPIFound := found\<rparr>))"
  "verifyPrometheusAPI d s = (case d PrometheusAPI of
       Inl err \<Rightarrow> (Some err, s\<lparr>probes := probes s @ [PrometheusAPI]\<rparr>)
     | Inr found \<Rightarrow> (None, s\<lparr>probes := probes s @ [PrometheusAPI], prometheusAPIFound := found\<rparr>))"
  "verifyTemplateAPI d s = (case d TemplateAPI of
       Inl err \<Rightarrow> (Some err, s\<lparr>probes := probes s @ [TemplateAPI]\<rparr>)
     | Inr found \<Rightarrow> (None, s\<lparr>probes := probes s @ [TemplateAPI], templateAPIFound := found\<rparr>))"
  by (simp_all add: verifyVersionAPI_def verifyRouteAPI_def verifyPrometheusAPI_def
      verifyTemplateAPI_def VerifyAPI_def split: sum.splits)

lemma verify_success_sets_flag:
  "d RouteAPI = Inr found \<Longrightarrow>
     verifyRouteAPI d s
       = (None, s\<lparr>probes := probes s @ [RouteAPI], routeAPIFound := found\<rparr>)"
  "d PrometheusAPI = Inr found \<Longrightarrow>
     verifyPrometheusAPI d s
       = (None, s\<lparr>probes := probes s @ [PrometheusAPI], prometheusAPIFound := found\<rparr>)"
  "d TemplateAPI = Inr found \<Longrightarrow>
     verifyTemplateAPI d s
       = (None, s\<lparr>probes := probes s @ [TemplateAPI], templateAPIFound := found\<rparr>)"
  "d VersionAPI = Inr found \<Longrightarrow>
     verifyVersionAPI d s
       = (None, s\<lparr>probes := probes s @ [VersionAPI], versionAPIFound := found\<rparr>)"
  by (simp_all add: verify_probe_simps)

text \<open>
  Claim C9.  A verification call (\<open>verifyRouteAPI\<close>, \<open>verifyPrometheusAPI\<close>,
  \<open>verifyTemplateAPI\<close>, \<open>verifyVersionAPI\<close>) that returns an error leaves its capability
  flag, and the three others, at the last-known value: a flag is written only when the
  probe succeeds.
\<close>

theorem verify_error_keeps_flags:
  "(fst (verifyRouteAPI d s) \<noteq> None \<longrightarrow> flagsOf (snd (verifyRouteAPI d s)) = flagsOf s)
   \<and> (fst (verifyPrometheusAPI d s) \<noteq> None \<longrightarrow> flagsOf (snd (verifyPrometheusAPI d s)) = flagsOf s)
   \<and> (fst (verifyTemplateAPI d s) \<noteq> None \<longrightarrow> flagsOf (snd (verifyTemplateAPI d s)) = flagsOf s)
   \<and> (fst (verifyVersionAPI d s) \<noteq> None \<longrightarrow> flagsOf (snd (verifyVersionAPI d s)) = flagsOf s)"
  by (simp add: verify_probe_simps flagsOf_def split: sum.splits)

text \<open>
  The claim at a state where every capability was found earlier and discovery is now
  failing: all four calls return the error and every flag stays true.
\<close>

theorem verify_error_keeps_flags_witness:
  "fst (verifyRouteAPI (\<lambda>a. Inl (ApiError ''unable to get k8s config''))
          \<lparr>versionAPIFound = True, prometheusAPIFound = True, routeAPIFound = True,
           templateAPIFound = True, probes = []\<rparr>) \<noteq> None
   \<and> fst (verifyPrometheusAPI (\<lambda>a. Inl (ApiError ''unable to get k8s config''))
          \<lparr>versionAPIFound = True, prometheusAPIFound = True, routeAPIFound = True,
           templateAPIFound = True, probes = []\<rparr>) \<noteq> None
   \<and> fst (verifyTemplateAPI (\<lambda>a. Inl (ApiError ''unable to get k8s config''))
          \<lparr>versionAPIFound = True, prometheusAPIFound = True, routeAPIFound = True,
           templateAPIFound = True, probes = []\<rparr>) \<noteq> None
   \<and> fst (verifyVersionAPI (\<lambda>a. Inl (ApiError ''unable to get k8s config''))
          \<lparr>versionAPIFound = True, prometheusAPIFound = True, routeAPIFound = True,
           templateAPIFound = True, probes = []\<rparr>) \<noteq> None
   \<and> flagsOf (snd (verifyRouteAPI (\<lambda>a. Inl (ApiError ''unable to get k8s config''))
          \<lparr>versionAPIFound = True, prometheusAPIFound = True, routeAPIFound = True,
           templateAPIFound = True, probes = []\<rparr>)) = (True, True, True, True)
   \<and> flagsOf (snd (verifyPrometheusAPI (\<lambda>a. Inl (ApiError ''unable to get k8s config''))
          \<lparr>versionAPIFound = True, prometheusAPIFound = True, routeAPIFound = True,
           templateAPIFound = True, probes = []\<rparr>)) = (True, True, True, True)
   \<and> flagsOf (snd (verifyTemplateAPI (\<lambda>a. Inl (ApiError ''unable to get k8s config''))
          \<lparr>versionAPIFound = True, prometheusAPIFound = True, routeAPIFound = True,
           templateAPIFound = True, probes = []\<rparr>)) = (True, True, True, True)
   \<and> flagsOf (snd (verifyVersionAPI (\<lambda>a. Inl (ApiError ''unable to get k8s config''))
          \<lparr>versionAPIFound = True, prometheusAPIFound = True, routeAPIFound = True,
           templateAPIFound = True, probes = []\<rparr>)) = (True, True, True, True)"
  using verify_error_keeps_flags [of "\<lambda>a. Inl (ApiError ''unable to get k8s config'')"
      "\<lparr>versionAPIFound = True, prometheusAPIFound = True, routeAPIFound = True,
        templateAPIFound = True, probes = []\<rparr>"]
  by (simp add: verify_probe_simps flagsOf_def)

lemma InspectCluster_stops_at_first_error:
  "d PrometheusAPI = Inl err \<Longrightarrow>
     InspectCluster d s = (Some err, s\<lparr>probes := probes s @ [PrometheusAPI]\<rparr>)"
  by (simp add: InspectCluster_def andThen_def verify_probe_simps)

lemma InspectClusterAll_runs_every_probe:
  "probes (snd (InspectClusterAll (verifyPrometheusAPI d) (verifyRouteAPI d)
                  (verifyTemplateAPI d) (verifyVersionAPI d) s))
     = probes s @ [PrometheusAPI, RouteAPI, TemplateAPI, VersionAPI]"
  by (simp add: InspectClusterAll_def recordError_def verify_probe_simps
      split: sum.splits prod.splits)

text \<open>
  Claim C8, evaluated on \<open>InspectCluster\<close> of \<open>TOBEREMOVED.go\<close>.  Starting from the
  initial flags, with the Prometheus probe failing and the three other APIs present:
  the call returns the Prometheus error after that single probe; the Route, Template
  and Version probes are never issued and their flags stay false, although discovery
  would have reported each of them as found.
\<close>

theorem InspectCluster_skips_remaining_probes:
  "InspectCluster
     (\<lambda>a. if a = PrometheusAPI then Inl (ApiError ''unable to get k8s config'') else Inr True)
     initialCapabilities
   = (Some (ApiError ''unable to get k8s config''),
      \<lparr>versionAPIFound = False, prometheusAPIFound = False, routeAPIFound = False,
       templateAPIFound = False, probes = [PrometheusAPI]\<rparr>)"
  by (simp add: InspectCluster_def andThen_def verify_probe_simps initialCapabilities_def)

subsection \<open>Namespace lists\<close>

lemma Split_not_Nil: "Split s sep \<noteq> []"
  by (induction s) auto

lemma splitList_not_Nil: "splitList s \<noteq> []"
  by (simp add: splitList_def Split_not_Nil)

lemma allowedNamespace_examples:
  "allowedNamespace ''foo'' ''*, bar''"
  "\<not> allowedNamespace ''foo'' ''bar, *''"
  "allowedNamespace ''*'' ''bar, *''"
  "allowedNamespace ''foo'' ''bar , foo''"
  "\<not> allowedNamespace ''foo'' ''''"
  by code_simp+

lemma find_SomeD: "find P xs = Some x \<Longrightarrow> x \<in> set xs \<and> P x"
  by (induction xs) (auto split: if_splits)

lemma spaceEncodings_not_Nil: "p \<in> set spaceEncodings \<Longrightarrow> p \<noteq> []"
  by (auto simp: spaceEncodings_def)

lemma whiteSpace_Nil: "whiteSpace []"
  by (subst whiteSpace.simps) simp

lemma whiteSpace_prepend:
  assumes "p \<in> set spaceEncodings" and "whiteSpace s"
  shows "whiteSpace (p @ s)"
proof -
  have "p @ s \<noteq> []"
    using assms(1) spaceEncodings_not_Nil by simp
  moreover have "list_ex (\<lambda>q. if take (length q) (p @ s) = q
                         then whiteSpace (drop (length q) (p @ s)) else False) spaceEncodings"
    unfolding list_ex_iff using assms by (intro bexI [of _ p]) simp_all
  ultimately show ?thesis
    by (subst whiteSpace.simps) simp
qed

lemma take_drop_split: "take n s = p \<Longrightarrow> p @ drop n s = s"
  using append_take_drop_id [of n s] by simp

lemma whiteSpace_append_encoding:
  "whiteSpace s \<Longrightarrow> p \<in> set spaceEncodings \<Longrightarrow> whiteSpace (s @ p)"
proof (induction s rule: whiteSpace.induct)
  case (1 s)
  show ?case
  proof (cases "s = []")
    case True
    then show ?thesis
      using whiteSpace_prepend [OF "1.prems"(2) whiteSpace_Nil] by simp
  next
    case False
    with "1.prems"(1) obtain q where q: "q \<in> set spaceEncodings" "take (length q) s = q"
        "whiteSpace (drop (length q) s)"
      by (subst (asm) whiteSpace.simps) (auto simp: list_ex_iff split: if_splits)
    define rest where "rest = drop (length q) s"
    have split: "q @ rest = s"
      unfolding rest_def by (rule take_drop_split [OF q(2)])
    have "whiteSpace (rest @ p)"
      unfolding rest_def using "1.IH" [OF False q(1) q(2) q(3) "1.prems"(2)] .
    then have "whiteSpace (q @ (rest @ p))"
      by (rule whiteSpace_prepend [OF q(1)])
    then have "whiteSpace ((q @ rest) @ p)"
      by simp
    then show ?thesis
      unfolding split .
  qed
qed

lemma leadingSpace_encoding:
  assumes "leadingSpace s \<noteq> 0"
  shows "\<exists>p \<in> set spaceEncodings. p @ drop (leadingSpace s) s = s"
proof -
  from assms obtain p where p: "find (\<lambda>p. take (length p) s = p) spaceEncodings = Some p"
      "leadingSpace s = length p"
    by (auto simp: leadingSpace_def split: option.splits)
  from find_SomeD [OF p(1)] have "p \<in> set spaceEncodings" "take (length p) s = p"
    by simp_all
  then show ?thesis
    using p(2) take_drop_split [of "length p" s p] by auto
qed

lemma trailingSpace_encoding:
  assumes "trailingSpace s \<noteq> 0"
  shows "\<exists>p \<in> set spaceEncodings. take (length s - trailingSpace s) s @ p = s"
proof -
  from assms obtain p where p: "find (\<lambda>p. take (length p) (rev s) = rev p) spaceEncodings = Some p"
      "trailingSpace s = length p"
    by (auto simp: trailingSpace_def split: option.splits)
  from find_SomeD [OF p(1)] have mem: "p \<in> set spaceEncodings"
      and suffix: "take (length p) (rev s) = rev p"
    by simp_all
  have "rev p @ drop (length p) (rev s) = rev s"
    by (rule take_drop_split [OF suffix])
  then have "rev (rev p @ drop (length p) (rev s)) = s"
    by simp
  then have "rev (drop (length p) (rev s)) @ p = s"
    by simp
  moreover have "rev (drop (length p) (rev s)) = take (length s - length p) s"
    by (simp add: rev_drop)
  ultimately show ?thesis
    using mem p(2) by auto
qed

lemma TrimLeftSpace_cut:
  "\<exists>pre. whiteSpace pre \<and> pre @ TrimLeftSpace s = s"
proof (induction s rule: TrimLeftSpace.induct)
  case (1 s)
  show ?case
  proof (cases "leadingSpace s = 0")
    case True
    then have "TrimLeftSpace s = s"
      by (subst TrimLeftSpace.simps) simp
    then show ?thesis
      using whiteSpace_Nil by (intro exI [of _ "[]"]) simp
  next
    case False
    define t where "t = drop (leadingSpace s) s"
    from "1.IH" [OF False] obtain pre where pre: "whiteSpace pre" "pre @ TrimLeftSpace t = t"
      unfolding t_def by blast
    from leadingSpace_encoding [OF False] obtain p where p: "p \<in> set spaceEncodings"
        "p @ t = s"
      unfolding t_def by blast
    have trim: "TrimLeftSpace s = TrimLeftSpace t"
      unfolding t_def using False by (subst TrimLeftSpace.simps) simp
    have "(p @ pre) @ TrimLeftSpace s = p @ (pre @ TrimLeftSpace t)"
      by (simp add: trim)
    also have "\<dots> = s"
      by (simp only: pre(2) p(2))
    finally have "(p @ pre) @ TrimLeftSpace s = s" .
    then show ?thesis
      using whiteSpace_prepend [OF p(1) pre(1)] by blast
  qed
qed

lemma TrimLeftSpace_no_leading: "leadingSpace (TrimLeftSpace s) = 0"
proof (induction s rule: TrimLeftSpace.induct)
  case (1 s)
  then show ?case
    by (subst TrimLeftSpace.simps) simp
qed

lemma TrimRightSpace_cut:
  "\<exists>post. whiteSpace post \<and> TrimRightSpace s @ post = s"
proof (induction s rule: TrimRightSpace.induct)
  case (1 s)
  show ?case
  proof (cases "trailingSpace s = 0")
    case True
    then have "TrimRightSpace s = s"
      by (subst TrimRightSpace.simps) simp
    then show ?thesis
      using whiteSpace_Nil by (intro exI [of _ "[]"]) simp
  next
    case False
    define t where "t = take (length s - trailingSpace s) s"
    from "1.IH" [OF False] obtain post where post: "whiteSpace post"
        "TrimRightSpace t @ post = t"
      unfolding t_def by blast
    from trailingSpace_encoding [OF False] obtain p where p: "p \<in> set spaceEncodings"
        "t @ p = s"
      unfolding t_def by blast
    have trim: "TrimRightSpace s = TrimRightSpace t"
      unfolding t_def using False by (subst TrimRightSpace.simps) simp
    have "TrimRightSpace s @ (post @ p) = (TrimRightSpace t @ post) @ p"
      by (simp add: trim)
    also have "\<dots> = s"
      by (simp only: post(2) p(2))
    finally have "TrimRightSpace s @ (post @ p) = s" .
    then show ?thesis
      using whiteSpace_append_encoding [OF post(1) p(1)] by blast
  qed
qed

lemma TrimRightSpace_no_trailing: "trailingSpace (TrimRightSpace s) = 0"
proof (induction s rule: TrimRightSpace.induct)
  case (1 s)
  then show ?case
    by (subst TrimRightSpace.simps) simp
qed

lemma leadingSpace_prefix:
  assumes "leadingSpace t = 0"
  shows "leadingSpace (take n t) = 0"
proof (rule ccontr)
  assume "leadingSpace (take n t) \<noteq> 0"
  from leadingSpace_encoding [OF this] obtain p rest where p: "p \<in> set spaceEncodings"
      "p @ rest = take n t"
    by blast
  have "length p \<le> n"
    using arg_cong [OF p(2), of length] by simp
  moreover have "take (length p) (take n t) = p"
    using arg_cong [OF p(2), of "take (length p)"] by simp
  ultimately have "take (length p) t = p"
    by (simp add: min_absorb1)
  then have "find (\<lambda>p. take (length p) t = p) spaceEncodings \<noteq> None"
    using p(1) by (auto simp: find_None_iff)
  then obtain q where q: "find (\<lambda>p. take (length p) t = p) spaceEncodings = Some q"
    by blast
  from find_SomeD [OF q] have "q \<noteq> []"
    using spaceEncodings_not_Nil by blast
  with q assms show False
    by (simp add: leadingSpace_def)
qed

lemma TrimSpace_cut:
  "\<exists>pre post. whiteSpace pre \<and> whiteSpace post \<and> pre @ TrimSpace s @ post = s"
  "leadingSpace (TrimSpace s) = 0"
  "trailingSpace (TrimSpace s) = 0"
proof -
  obtain pre where pre: "whiteSpace pre" "pre @ TrimLeftSpace s = s"
    using TrimLeftSpace_cut by blast
  obtain post where post: "whiteSpace post" "TrimSpace s @ post = TrimLeftSpace s"
    unfolding TrimSpace_def using TrimRightSpace_cut by blast
  have "pre @ TrimSpace s @ post = s"
    by (simp only: post(2) pre(2))
  then show "\<exists>pre post. whiteSpace pre \<and> whiteSpace post \<and> pre @ TrimSpace s @ post = s"
    using pre(1) post(1) by blast
  have "take (length (TrimSpace s)) (TrimLeftSpace s) = TrimSpace s"
    using arg_cong [OF post(2), of "take (length (TrimSpace s))"] by simp
  then show "leadingSpace (TrimSpace s) = 0"
    using leadingSpace_prefix [OF TrimLeftSpace_no_leading, of "length (TrimSpace s)" s] by simp
  show "trailingSpace (TrimSpace s) = 0"
    unfolding TrimSpace_def by (rule TrimRightSpace_no_trailing)
qed

lemma Join_Split: "Join (Split s sep) [sep] = s"
proof (induction s)
  case Nil
  show ?case by simp
next
  case (Cons c s)
  obtain e es where split: "Split s sep = e # es"
    using Split_not_Nil [of s sep] by (cases "Split s sep") auto
  show ?case
    using Cons split by (cases es) auto
qed

lemma Split_no_separator: "e \<in> set (Split s sep) \<Longrightarrow> sep \<notin> set e"
proof (induction s arbitrary: e)
  case Nil
  then show ?case by simp
next
  case (Cons c s)
  obtain x xs where split: "Split s sep = x # xs"
    using Split_not_Nil [of s sep] by (cases "Split s sep") auto
  have "sep \<notin> set x" and "\<And>y. y \<in> set xs \<Longrightarrow> sep \<notin> set y"
    using Cons.IH split by simp_all
  then show ?case
    using Cons.prems split by (auto split: if_splits)
qed

lemma splitList_values:
  "splitList '' * , bar'' = [''*'', ''bar'']"
  "splitList ''bar ,  foo '' = [''bar'', ''foo'']"
  "splitList ''bar, *'' = [''bar'', ''*'']"
  "splitList ''foo bar'' = [''foo bar'']"
  "splitList '''' = ['''']"
  "splitList
     [CHR 0xC2, CHR 0xA0, CHR ''*'', CHR 0x09, CHR '','', CHR ''a'', CHR 0xE3, CHR 0x80, CHR 0x80]
     = [''*'', ''a'']"
  by code_simp+

text \<open>
  Claim C10.  The list is cut at every comma (joining the pieces with commas gives the
  list back, and no piece holds a comma) and is never empty; each element is its piece
  with the white space at both ends cut off, and has none left at either end.
  \<open>allowedNamespace current namespaces\<close> is true exactly when the first of these
  trimmed elements is \<open>*\<close> or some trimmed element equals \<open>current\<close>: a \<open>*\<close> at a later
  position counts only as the literal name \<open>*\<close>.
\<close>

theorem allowedNamespace_wildcard_first_only:
  "Join (Split namespaces CHR '','') '','' = namespaces
   \<and> (\<forall>e \<in> set (Split namespaces CHR '',''). CHR '','' \<notin> set e)
   \<and> splitList namespaces \<noteq> []
   \<and> length (splitList namespaces) = length (Split namespaces CHR '','')
   \<and> (\<forall>i < length (splitList namespaces).
         (\<exists>pre post. whiteSpace pre \<and> whiteSpace post
            \<and> pre @ splitList namespaces ! i @ post = Split namespaces CHR '','' ! i)
         \<and> leadingSpace (splitList namespaces ! i) = 0
         \<and> trailingSpace (splitList namespaces ! i) = 0)
   \<and> (allowedNamespace current namespaces
        \<longleftrightarrow> hd (splitList namespaces) = ''*'' \<or> current \<in> set (splitList namespaces))"
proof (intro conjI)
  show "Join (Split namespaces CHR '','') '','' = namespaces"
    by (rule Join_Split)
  show "\<forall>e \<in> set (Split namespaces CHR '',''). CHR '','' \<notin> set e"
    using Split_no_separator by blast
  show nonempty: "splitList namespaces \<noteq> []"
    by (simp add: splitList_def Split_not_Nil)
  show "length (splitList namespaces) = length (Split namespaces CHR '','')"
    by (simp add: splitList_def)
  show "\<forall>i < length (splitList namespaces).
         (\<exists>pre post. whiteSpace pre \<and> whiteSpace post
            \<and> pre @ splitList namespaces ! i @ post = Split namespaces CHR '','' ! i)
         \<and> leadingSpace (splitList namespaces ! i) = 0
         \<and> trailingSpace (splitList namespaces ! i) = 0"
    using TrimSpace_cut by (simp add: splitList_def)
  show "allowedNamespace current namespaces
        \<longleftrightarrow> hd (splitList namespaces) = ''*'' \<or> current \<in> set (splitList namespaces)"
    using nonempty by (auto simp: allowedNamespace_def Let_def list_ex_iff hd_conv_nth)
qed

text \<open>
  The claim on lists with white space around the names: a padded \<open>*\<close> in first place
  admits every namespace, a padded name is matched, a \<open>*\<close> in second place admits only
  the namespace called \<open>*\<close>, white space inside a name is kept, and a no-break space
  (U+00A0), a tab and an ideographic space (U+3000) are cut off like a blank.
\<close>

theorem allowedNamespace_wildcard_first_only_witness:
  "splitList '' * , bar'' = [''*'', ''bar''] \<and> allowedNamespace ''foo'' '' * , bar''
   \<and> splitList ''bar ,  foo '' = [''bar'', ''foo''] \<and> allowedNamespace ''foo'' ''bar ,  foo ''
   \<and> splitList ''bar, *'' = [''bar'', ''*''] \<and> \<not> allowedNamespace ''foo'' ''bar, *''
   \<and> allowedNamespace ''*'' ''bar, *''
   \<and> splitList ''foo bar'' = [''foo bar''] \<and> \<not> allowedNamespace ''foo'' ''foo bar''
   \<and> splitList '''' = [''''] \<and> \<not> allowedNamespace ''foo'' ''''
   \<and> splitList
        [CHR 0xC2, CHR 0xA0, CHR ''*'', CHR 0x09, CHR '','', CHR ''a'', CHR 0xE3, CHR 0x80, CHR 0x80]
       = [''*'', ''a'']
   \<and> allowedNamespace ''foo''
        [CHR 0xC2, CHR 0xA0, CHR ''*'', CHR 0x09, CHR '','', CHR ''a'', CHR 0xE3, CHR 0x80, CHR 0x80]"
  using allowedNamespace_wildcard_first_only
      [of "[CHR 0xC2, CHR 0xA0, CHR ''*'', CHR 0x09, CHR '','', CHR ''a'', CHR 0xE3, CHR 0x80, CHR 0x80]"
          "''foo''"]
    allowedNamespace_wildcard_first_only [of "'' * , bar''" "''foo''"]
    allowedNamespace_wildcard_first_only [of "''bar ,  foo ''" "''foo''"]
    allowedNamespace_wildcard_first_only [of "''bar, *''" "''foo''"]
    allowedNamespace_wildcard_first_only [of "''bar, *''" "''*''"]
    allowedNamespace_wildcard_first_only [of "''foo bar''" "''foo''"]
    allowedNamespace_wildcard_first_only [of "''''" "''foo''"]
  by (simp add: splitList_values)

subsection \<open>Managed namespaces\<close>

text \<open>
  Claim C7.  When the List call succeeds, \<open>setManagedNamespaces\<close> returns nil and the
  names stored in \<open>r.ManagedNamespaces\<close> are those of the namespaces whose managed-by
  label equals \<open>cr.Namespace\<close>, together with \<open>cr.Namespace\<close> itself, labelled or not.
  When the List call fails, its error is returned and the reconciler is unchanged.
\<close>

theorem setManagedNamespaces_result:
  "(listFault (Client r) = None \<longrightarrow>
      fst (setManagedNamespaces cr r) = None
      \<and> (\<exists>items. ManagedNamespaces (snd (setManagedNamespaces cr r)) = Some items
            \<and> set (map nsName items)
                = {nsName n | n. n \<in> set (namespaceObjects (Client r))
                                 \<and> map_of (nsLabels n) ArgoCDManagedByLabel = Some (crNamespace cr)}
                  \<union> {crNamespace cr}))
   \<and> (\<forall>err. listFault (Client r) = Some err \<longrightarrow> setManagedNamespaces cr r = (Some err, r))"
  by (auto simp: setManagedNamespaces_def clientList_def)

text \<open>
  The claim on the example cluster: instance namespace \<open>ns1\<close> without a label and \<open>ns2\<close>
  labelled for it give \<open>ns2\<close> and \<open>ns1\<close>; with the List call timing out, a previously
  stored list stays as it was.
\<close>

theorem setManagedNamespaces_result_witness:
  "fst (setManagedNamespaces exampleInstance \<lparr>Client = exampleCluster, ManagedNamespaces = None\<rparr>) = None
   \<and> map nsName (the (ManagedNamespaces (snd (setManagedNamespaces exampleInstance
          \<lparr>Client = exampleCluster, ManagedNamespaces = None\<rparr>)))) = [''ns2'', ''ns1'']
   \<and> setManagedNamespaces exampleInstance
        \<lparr>Client = exampleCluster\<lparr>listFault := Some (ApiError ''timeout'')\<rparr>,
         ManagedNamespaces = Some [\<lparr>nsName = ''old'', nsLabels = []\<rparr>]\<rparr>
      = (Some (ApiError ''timeout''),
         \<lparr>Client = exampleCluster\<lparr>listFault := Some (ApiError ''timeout'')\<rparr>,
          ManagedNamespaces = Some [\<lparr>nsName = ''old'', nsLabels = []\<rparr>]\<rparr>)"
  using setManagedNamespaces_result
      [of "\<lparr>Client = exampleCluster, ManagedNamespaces = None\<rparr>" exampleInstance]
    setManagedNamespaces_result
      [of "\<lparr>Client = exampleCluster\<lparr>listFault := Some (ApiError ''timeout'')\<rparr>,
           ManagedNamespaces = Some [\<lparr>nsName = ''old'', nsLabels = []\<rparr>]\<rparr>" exampleInstance]
  by (simp add: setManagedNamespaces_def clientList_def exampleCluster_def exampleInstance_def
      ArgoCDManagedByLabel_def)

subsection \<open>Removing the managed-by label\<close>







lemma removeString_filter: "removeString slice s = filter (\<lambda>item. item \<noteq> s) slice"
  by (induction slice) simp_all

text \<open>
  \<open>removeDeletionFinalizer\<close> hands back the object without the finalizer and fails
  exactly when the write of the object fails.
\<close>

lemma removeDeletionFinalizer_result:
  "ArgoCDDeletionFinalizer \<notin> set (Finalizers (fst (snd (removeDeletionFinalizer argocd r))))"
  "fst (removeDeletionFinalizer argocd r) = None
     \<longleftrightarrow> fst (clientUpdateArgoCD
               (argocd\<lparr>Finalizers := removeString (Finalizers argocd) ArgoCDDeletionFinalizer\<rparr>)
               (Client r)) = None"
  by (simp_all add: removeDeletionFinalizer_def Let_def removeString_filter
      split: prod.splits option.splits)






subsection \<open>Deleting the RBAC objects of a namespace\<close>

lemma deleteRole_frame:
  "deleteRole ns name k = (res, k') \<Longrightarrow>
     requests k' = requests k @ [DeleteRole ns name] \<and> fault k' = fault k
     \<and> roleBindings k' = roleBindings k \<and> secrets k' = secrets k"
  by (auto simp: deleteRole_def issue_def split: option.splits if_splits)

lemma deleteRoleBinding_frame:
  "deleteRoleBinding ns name k = (res, k') \<Longrightarrow>
     requests k' = requests k @ [DeleteRoleBinding ns name] \<and> fault k' = fault k
     \<and> roles k' = roles k \<and> secrets k' = secrets k"
  by (auto simp: deleteRoleBinding_def issue_def split: option.splits if_splits)

lemma deleteRoles_frame:
  "requests (deleteRoles ns items k)
     = requests k @ map (\<lambda>role. DeleteRole ns (objName role)) items
   \<and> fault (deleteRoles ns items k) = fault k
   \<and> roleBindings (deleteRoles ns items k) = roleBindings k
   \<and> secrets (deleteRoles ns items k) = secrets k"
proof (induction items arbitrary: k)
  case Nil
  show ?case by simp
next
  case (Cons role items)
  obtain res k' where step: "deleteRole ns (objName role) k = (res, k')"
    by (cases "deleteRole ns (objName role) k")
  from deleteRole_frame [OF step] Cons [of k'] Cons [of "logError e k'" for e] step
  show ?case
    by (cases res) (simp_all add: logError_def)
qed

lemma deleteRoleBindings_frame:
  "requests (deleteRoleBindings ns items k)
     = requests k @ map (\<lambda>binding. DeleteRoleBinding ns (objName binding)) items
   \<and> fault (deleteRoleBindings ns items k) = fault k
   \<and> roles (deleteRoleBindings ns items k) = roles k
   \<and> secrets (deleteRoleBindings ns items k) = secrets k"
proof (induction items arbitrary: k)
  case Nil
  show ?case by simp
next
  case (Cons binding items)
  obtain res k' where step: "deleteRoleBinding ns (objName binding) k = (res, k')"
    by (cases "deleteRoleBinding ns (objName binding) k")
  from deleteRoleBinding_frame [OF step] Cons [of k'] Cons [of "logError e k'" for e] step
  show ?case
    by (cases res) (simp_all add: logError_def)
qed

text \<open>
  Claim C3, as the code has it.  When both List calls succeed,
  \<open>deleteRBACsForNamespace\<close> returns nil and issues, in this order: the list of the
  platform's Roles in the namespace, one delete for each Role listed, the list of the
  platform's RoleBindings, one delete for each RoleBinding listed.  Roles are deleted
  first and RoleBindings second, the same order as on creation.
\<close>

theorem deleteRBACsForNamespace_roles_first:
  "fault k (ListRoles sourceNS) = None \<and> fault k (ListRoleBindings sourceNS) = None \<longrightarrow>
     fst (deleteRBACsForNamespace ownerNS sourceNS k) = None
     \<and> requests (snd (deleteRBACsForNamespace ownerNS sourceNS k))
         = requests k
           @ [ListRoles sourceNS]
           @ map (\<lambda>role. DeleteRole sourceNS (objName role))
               (filter (matching sourceNS (ArgoCDKeyPartOf, ArgoCDAppName)) (roles k))
           @ [ListRoleBindings sourceNS]
           @ map (\<lambda>binding. DeleteRoleBinding sourceNS (objName binding))
               (filter (matching sourceNS (ArgoCDKeyPartOf, ArgoCDAppName)) (roleBindings k))"
  by (simp add: deleteRBACsForNamespace_def listRoles_def listRoleBindings_def Let_def
      deleteRoles_frame deleteRoleBindings_frame issue_def)

text \<open>The order on the example: one Role and one RoleBinding of the platform in \<open>ns2\<close>.\<close>

theorem deleteRBACsForNamespace_roles_first_witness:
  "fault (exampleKube ''https://kubernetes.default.svc'' ''ns1,ns2'') (ListRoles ''ns2'') = None
   \<and> fault (exampleKube ''https://kubernetes.default.svc'' ''ns1,ns2'') (ListRoleBindings ''ns2'') = None
   \<and> fst (deleteRBACsForNamespace ''ns1'' ''ns2''
            (exampleKube ''https://kubernetes.default.svc'' ''ns1,ns2'')) = None
   \<and> requests (snd (deleteRBACsForNamespace ''ns1'' ''ns2''
            (exampleKube ''https://kubernetes.default.svc'' ''ns1,ns2'')))
      = [ListRoles ''ns2'', DeleteRole ''ns2'' ''demo-argocd-server'',
         ListRoleBindings ''ns2'', DeleteRoleBinding ''ns2'' ''demo-argocd-server'']"
  using deleteRBACsForNamespace_roles_first
      [of "exampleKube ''https://kubernetes.default.svc'' ''ns1,ns2''" "''ns2''" "''ns1''"]
  by (simp add: exampleKube_def matching_def ArgoCDKeyPartOf_def ArgoCDAppName_def)

lemma deleteRBACsForNamespace_example:
  "deleteRBACsForNamespace ''ns1'' ''ns2'' (exampleKube server stored)
     = (None, (exampleKube server stored)
               \<lparr>roles := [], roleBindings := [],
                requests := [ListRoles ''ns2'', DeleteRole ''ns2'' ''demo-argocd-server'',
                   ListRoleBindings ''ns2'', DeleteRoleBinding ''ns2'' ''demo-argocd-server'']\<rparr>)"
  by (simp add: deleteRBACsForNamespace_def listRoles_def listRoleBindings_def
      deleteRole_def deleteRoleBinding_def issue_def exampleKube_def matching_def named_def
      ArgoCDKeyPartOf_def ArgoCDAppName_def)

text \<open>
  Claim C3 as stated fails: on the example, the RoleBinding is not deleted before the
  Role; the Role is deleted first.
\<close>

theorem deleteRBACsForNamespace_order_counterexample:
  "\<not> precedes (DeleteRoleBinding ''ns2'' ''demo-argocd-server'')
        (DeleteRole ''ns2'' ''demo-argocd-server'')
        (requests (snd (deleteRBACsForNamespace ''ns1'' ''ns2''
            (exampleKube ''https://kubernetes.default.svc'' ''ns1,ns2''))))
   \<and> precedes (DeleteRole ''ns2'' ''demo-argocd-server'')
        (DeleteRoleBinding ''ns2'' ''demo-argocd-server'')
        (requests (snd (deleteRBACsForNamespace ''ns1'' ''ns2''
            (exampleKube ''https://kubernetes.default.svc'' ''ns1,ns2''))))"
  by (simp add: deleteRBACsForNamespace_example precedes_def)

subsection \<open>The cluster secret\<close>

lemma sort_sort_append: "sort (sort xs @ ys) = sort (xs @ (ys :: 'a :: linorder list))"
  by (rule properties_for_sort) simp_all

text \<open>
  What the inner loop computes: the entries are trimmed, those equal to \<open>sourceNS\<close> are
  dropped, and if any entry is left the field is written with the sorted, comma-joined
  rest.  If none is left the field is never written.
\<close>

lemma removeNamespaceLoop_result:
  "removeNamespaceLoop sourceNS namespaceList (result, secretData) =
     (let kept = filter (\<lambda>n. n \<noteq> sourceNS) (map TrimSpace namespaceList) in
      if kept = [] then (result, secretData)
      else (sort (result @ kept),
            AList.update ''namespaces'' (Join (sort (result @ kept)) '','') secretData))"
proof (induction namespaceList arbitrary: result secretData)
  case Nil
  show ?case by simp
next
  case (Cons n namespaceList)
  show ?case
    by (simp add: Cons Let_def sort_sort_append)
qed

lemma removeNamespaceLoop_none_left:
  "filter (\<lambda>n. n \<noteq> sourceNS) (map TrimSpace (Split stored CHR '','')) = [] \<Longrightarrow>
     snd (removeNamespaceLoop sourceNS (Split stored CHR '','') ([], secretData)) = secretData"
  by (simp add: removeNamespaceLoop_result)

lemma removeNamespaceLoop_some_left:
  "filter (\<lambda>n. n \<noteq> sourceNS) (map TrimSpace (Split stored CHR '','')) \<noteq> [] \<Longrightarrow>
     map_of (snd (removeNamespaceLoop sourceNS (Split stored CHR '','') ([], secretData)))
       ''namespaces''
     = Some (Join (sort (filter (\<lambda>n. n \<noteq> sourceNS) (map TrimSpace (Split stored CHR '','')))) '','')"
  by (simp add: removeNamespaceLoop_result update_conv' Let_def)

lemma deleteManagedNamespace_two_entries:
  "fst (deleteManagedNamespaceFromClusterSecret ''https://kubernetes.default.svc'' ''ns1'' ''ns2''
          (exampleKube ''https://kubernetes.default.svc'' ''ns2, ns1'')) = None"
  "secrets (snd (deleteManagedNamespaceFromClusterSecret ''https://kubernetes.default.svc''
          ''ns1'' ''ns2'' (exampleKube ''https://kubernetes.default.svc'' ''ns2, ns1'')))
     = [exampleSecret ''https://kubernetes.default.svc'' ''ns1'']"
  by code_simp+

text \<open>
  Claim C1, evaluated on the code.  The cluster secret of \<open>ns1\<close> has the default server
  and lists \<open>ns2\<close> alone.  Removing \<open>ns2\<close> succeeds, the secret is listed and updated, and
  its \<open>namespaces\<close> field still reads \<open>ns2\<close>.
\<close>

theorem deleteManagedNamespace_only_entry_stays:
  "fst (deleteManagedNamespaceFromClusterSecret ''https://kubernetes.default.svc'' ''ns1'' ''ns2''
          (exampleKube ''https://kubernetes.default.svc'' ''ns2'')) = None
   \<and> requests (snd (deleteManagedNamespaceFromClusterSecret ''https://kubernetes.default.svc''
          ''ns1'' ''ns2'' (exampleKube ''https://kubernetes.default.svc'' ''ns2'')))
      = [ListSecrets ''ns1'', UpdateSecret ''ns1'' ''demo-default-cluster-config'']
   \<and> map (\<lambda>secret. dataString secret ''namespaces'')
        (secrets (snd (deleteManagedNamespaceFromClusterSecret ''https://kubernetes.default.svc''
          ''ns1'' ''ns2'' (exampleKube ''https://kubernetes.default.svc'' ''ns2''))))
      = [''ns2'']"
  by code_simp

subsection \<open>The namespace watch predicate\<close>

lemma updateSecret_frame:
  "updateSecret ns obj k = (res, k') \<Longrightarrow>
     requests k' = requests k @ [UpdateSecret ns (objName obj)]
     \<and> roles k' = roles k \<and> roleBindings k' = roleBindings k"
  by (auto simp: updateSecret_def issue_def split: option.splits if_splits)

lemma clusterSecretsLoop_frame:
  "roles (snd (clusterSecretsLoop defaultServer ownerNS sourceNS items k)) = roles k
   \<and> roleBindings (snd (clusterSecretsLoop defaultServer ownerNS sourceNS items k)) = roleBindings k
   \<and> (\<exists>new. requests (snd (clusterSecretsLoop defaultServer ownerNS sourceNS items k))
                = requests k @ new \<and> list_all (\<lambda>req. \<not> rbacRequest req) new)"
proof (induction items arbitrary: k)
  case Nil
  show ?case by simp
next
  case (Cons secret items)
  show ?case
  proof (cases "dataString secret ''server'' \<noteq> defaultServer
                \<or> map_of (objData secret) ''namespaces'' = None")
    case True
    then show ?thesis
      using Cons [of k] by auto
  next
    case False
    then obtain stored where stored: "map_of (objData secret) ''namespaces'' = Some stored"
        and server: "dataString secret ''server'' = defaultServer"
      by auto
    let ?obj = "secret\<lparr>objData :=
                  snd (removeNamespaceLoop sourceNS (Split stored CHR '','') ([], objData secret))\<rparr>"
    obtain res k' where upd: "updateSecret ownerNS ?obj k = (res, k')"
      by (cases "updateSecret ownerNS ?obj k")
    note frame = updateSecret_frame [OF upd]
    show ?thesis
    proof (cases res)
      case None
      from Cons [of k'] obtain new where
        "roles (snd (clusterSecretsLoop defaultServer ownerNS sourceNS items k')) = roles k'"
        "roleBindings (snd (clusterSecretsLoop defaultServer ownerNS sourceNS items k')) = roleBindings k'"
        "requests (snd (clusterSecretsLoop defaultServer ownerNS sourceNS items k')) = requests k' @ new"
        "list_all (\<lambda>req. \<not> rbacRequest req) new"
        by blast
      then show ?thesis
        using None stored server upd frame by simp
    next
      case (Some err)
      then show ?thesis
        using stored server upd frame by (simp add: logError_def)
    qed
  qed
qed

lemma deleteManagedNamespaceFromClusterSecret_frame:
  "roles (snd (deleteManagedNamespaceFromClusterSecret defaultServer ownerNS sourceNS k)) = roles k
   \<and> roleBindings (snd (deleteManagedNamespaceFromClusterSecret defaultServer ownerNS sourceNS k))
       = roleBindings k
   \<and> (\<exists>new. requests (snd (deleteManagedNamespaceFromClusterSecret defaultServer ownerNS sourceNS k))
                = requests k @ new \<and> list_all (\<lambda>req. \<not> rbacRequest req) new)"
proof (cases "fault k (ListSecrets ownerNS)")
  case (Some err)
  then show ?thesis
    by (simp add: deleteManagedNamespaceFromClusterSecret_def listSecrets_def issue_def
        logError_def)
next
  case None
  let ?k1 = "issue (ListSecrets ownerNS) k"
  let ?items = "filter (matching ownerNS (ArgoCDSecretTypeLabel, ''cluster'')) (secrets k)"
  have unfold: "deleteManagedNamespaceFromClusterSecret defaultServer ownerNS sourceNS k
      = clusterSecretsLoop defaultServer ownerNS sourceNS ?items ?k1"
    using None by (simp add: deleteManagedNamespaceFromClusterSecret_def listSecrets_def)
  from clusterSecretsLoop_frame [of defaultServer ownerNS sourceNS ?items ?k1]
  obtain new where
    "roles (snd (clusterSecretsLoop defaultServer ownerNS sourceNS ?items ?k1)) = roles ?k1"
    "roleBindings (snd (clusterSecretsLoop defaultServer ownerNS sourceNS ?items ?k1)) = roleBindings ?k1"
    "requests (snd (clusterSecretsLoop defaultServer ownerNS sourceNS ?items ?k1)) = requests ?k1 @ new"
    "list_all (\<lambda>req. \<not> rbacRequest req) new"
    by blast
  then show ?thesis
    unfolding unfold by (simp add: issue_def)
qed

lemma logged_only_frame:
  "roles (logged_only f k) = roles (snd (f k))
   \<and> roleBindings (logged_only f k) = roleBindings (snd (f k))
   \<and> secrets (logged_only f k) = secrets (snd (f k))
   \<and> requests (logged_only f k) = requests (snd (f k))"
  by (simp add: logged_only_def logError_def split: prod.splits option.splits)

lemma Split_no_sep: "sep \<notin> set e \<Longrightarrow> Split e sep = [e]"
  by (induction e) auto

lemma Split_append_sep:
  "sep \<notin> set e \<Longrightarrow> Split (e @ sep # rest) sep = e # Split rest sep"
  by (induction e) auto

lemma Split_Join:
  "xs \<noteq> [] \<Longrightarrow> \<forall>e \<in> set xs. sep \<notin> set e \<Longrightarrow> Split (Join xs [sep]) sep = xs"
proof (induction xs "[sep]" rule: Join.induct)
  case 1
  then show ?case by simp
next
  case (2 e)
  then show ?case by (simp add: Split_no_sep)
next
  case (3 e e' es)
  then show ?case by (simp add: Split_append_sep)
qed

lemma TrimSpace_trimmed:
  "leadingSpace s = 0 \<Longrightarrow> trailingSpace s = 0 \<Longrightarrow> TrimSpace s = s"
  unfolding TrimSpace_def
  by (subst TrimLeftSpace.simps, simp) (subst TrimRightSpace.simps, simp)

lemma TrimSpace_idem: "TrimSpace (TrimSpace s) = TrimSpace s"
  by (rule TrimSpace_trimmed) (rule TrimSpace_cut)+

text \<open>
  The entries a rewritten list is made of: joining trimmed, comma-free names and
  splitting again gives the same names.
\<close>

lemma splitList_Join_kept:
  assumes "kept = filter (\<lambda>n. n \<noteq> sourceNS) (splitList stored)" and "kept \<noteq> []"
  shows "splitList (Join (sort kept) '','') = sort kept"
proof -
  have pieces: "\<forall>e \<in> set (Split stored CHR '',''). CHR '','' \<notin> set e"
    using Split_no_separator by blast
  have no_comma: "CHR '','' \<notin> set (TrimSpace e)" if "CHR '','' \<notin> set e" for e
  proof -
    obtain pre post where "pre @ TrimSpace e @ post = e"
      using TrimSpace_cut(1) by blast
    then have "set (TrimSpace e) \<subseteq> set e"
      by (metis Un_upper1 Un_upper2 set_append subset_trans)
    with that show ?thesis by blast
  qed
  have members: "\<forall>e \<in> set (sort kept). CHR '','' \<notin> set e \<and> TrimSpace e = e"
    using assms(1) pieces no_comma by (auto simp: splitList_def TrimSpace_idem)
  have "sort kept \<noteq> []"
    using assms(2) by (metis length_0_conv length_sort)
  then have "Split (Join (sort kept) '','') CHR '','' = sort kept"
    using members Split_Join [of "sort kept" "CHR '',''"] by simp
  moreover have "map TrimSpace (sort kept) = sort kept"
    using members by (intro map_idI) simp
  ultimately show ?thesis
    by (simp add: splitList_def)
qed

lemma clusterSecretsLoop_effect:
  assumes "distinct (map (\<lambda>s. (objNamespace s, objName s)) (secrets k))"
    and "\<forall>name. fault k (UpdateSecret ownerNS name) = None"
    and "set items \<subseteq> set (secrets k)"
    and "\<forall>x \<in> set items. objNamespace x = ownerNS"
    and "distinct (map objName items)"
  shows "fst (clusterSecretsLoop defaultServer ownerNS sourceNS items k) = None
         \<and> secrets (snd (clusterSecretsLoop defaultServer ownerNS sourceNS items k))
           = map (\<lambda>s. if objNamespace s = ownerNS \<and> objName s \<in> objName ` set items
                           \<and> dataString s ''server'' = defaultServer
                           \<and> map_of (objData s) ''namespaces'' \<noteq> None
                        then s\<lparr>objData :=
                                snd (removeNamespaceLoop sourceNS
                                       (Split (the (map_of (objData s) ''namespaces'')) CHR '','')
                                       ([], objData s))\<rparr>
                        else s)
               (secrets k)"
  using assms
proof (induction items arbitrary: k)
  case Nil
  show ?case by (simp add: map_idI)
next
  case (Cons x items)
  let ?rewrite = "\<lambda>s. s\<lparr>objData :=
                        snd (removeNamespaceLoop sourceNS
                               (Split (the (map_of (objData s) ''namespaces'')) CHR '','')
                               ([], objData s))\<rparr>"
  let ?F = "\<lambda>S s. if objNamespace s = ownerNS \<and> objName s \<in> S
                       \<and> dataString s ''server'' = defaultServer
                       \<and> map_of (objData s) ''namespaces'' \<noteq> None
                    then ?rewrite s else s"
  have x: "x \<in> set (secrets k)" "objNamespace x = ownerNS"
    using Cons.prems(3,4) by simp_all
  have unique: "m = x"
    if "m \<in> set (secrets k)" "objNamespace m = ownerNS" "objName m = objName x" for m
    using Cons.prems(1) that x by (simp add: distinct_map inj_on_def)
  have fresh: "objName x \<notin> objName ` set items"
    using Cons.prems(5) by simp
  have rest: "set items \<subseteq> set (secrets k)" "\<forall>y \<in> set items. objNamespace y = ownerNS"
      "distinct (map objName items)"
    using Cons.prems(3,4,5) by simp_all
  show ?case
  proof (cases "dataString x ''server'' = defaultServer
                \<and> map_of (objData x) ''namespaces'' \<noteq> None")
    case False
    then have step: "clusterSecretsLoop defaultServer ownerNS sourceNS (x # items) k
        = clusterSecretsLoop defaultServer ownerNS sourceNS items k"
      by (auto split: option.splits)
    have "map (?F (objName ` set (x # items))) (secrets k)
        = map (?F (objName ` set items)) (secrets k)"
    proof (rule map_cong [OF refl])
      fix m
      assume "m \<in> set (secrets k)"
      then show "?F (objName ` set (x # items)) m = ?F (objName ` set items) m"
        using unique [of m] False by auto
    qed
    then show ?thesis
      unfolding step using Cons.IH [OF Cons.prems(1,2) rest] by simp
  next
    case True
    then obtain stored where stored: "map_of (objData x) ''namespaces'' = Some stored"
        and server: "dataString x ''server'' = defaultServer"
      by auto
    let ?U = "\<lambda>old. if named ownerNS (objName x) old then ?rewrite x else old"
    let ?k1 = "issue (UpdateSecret ownerNS (objName x)) (k\<lparr>secrets := map ?U (secrets k)\<rparr>)"
    have present: "list_ex (named ownerNS (objName x)) (secrets k)"
      using x by (auto simp: list_ex_iff named_def)
    have upd: "updateSecret ownerNS (?rewrite x) k = (None, ?k1)"
      using Cons.prems(2) present by (simp add: updateSecret_def)
    have step: "clusterSecretsLoop defaultServer ownerNS sourceNS (x # items) k
        = clusterSecretsLoop defaultServer ownerNS sourceNS items ?k1"
      using stored server upd by simp
    have pairs: "map (\<lambda>s. (objNamespace s, objName s)) (secrets ?k1)
        = map (\<lambda>s. (objNamespace s, objName s)) (secrets k)"
      using x(2) by (auto simp: issue_def named_def)
    have dist1: "distinct (map (\<lambda>s. (objNamespace s, objName s)) (secrets ?k1))"
      unfolding pairs by (rule Cons.prems(1))
    have faults1: "\<forall>name. fault ?k1 (UpdateSecret ownerNS name) = None"
      using Cons.prems(2) by (simp add: issue_def)
    have rest1: "set items \<subseteq> set (secrets ?k1)"
    proof
      fix y
      assume y: "y \<in> set items"
      then have "objName y \<noteq> objName x"
        using fresh by (metis image_eqI)
      then have "?U y = y"
        by (simp add: named_def)
      moreover have "y \<in> set (secrets k)"
        using y rest(1) by blast
      ultimately show "y \<in> set (secrets ?k1)"
        by (simp add: issue_def image_iff) (metis (lifting))
    qed
    from Cons.IH [OF dist1 faults1 rest1 rest(2,3)]
    have IH: "fst (clusterSecretsLoop defaultServer ownerNS sourceNS items ?k1) = None"
        "secrets (snd (clusterSecretsLoop defaultServer ownerNS sourceNS items ?k1))
           = map (?F (objName ` set items)) (map ?U (secrets k))"
      by (simp_all add: issue_def)
    have "map (?F (objName ` set items)) (map ?U (secrets k))
        = map (?F (objName ` set (x # items))) (secrets k)"
      unfolding map_map
    proof (rule map_cong [OF refl])
      fix m
      assume m: "m \<in> set (secrets k)"
      show "(?F (objName ` set items) \<circ> ?U) m = ?F (objName ` set (x # items)) m"
      proof (cases "named ownerNS (objName x) m")
        case same: True
        then have "m = x"
          using unique [OF m] by (simp add: named_def)
        then show ?thesis
          using same fresh True x(2) by simp
      next
        case False
        then show ?thesis
          by (auto simp: named_def)
      qed
    qed
    then show ?thesis
      unfolding step using IH by simp
  qed
qed

lemma deleteManagedNamespaceFromClusterSecret_effect:
  assumes "distinct (map (\<lambda>s. (objNamespace s, objName s)) (secrets k))"
    and "fault k (ListSecrets ownerNS) = None"
    and "\<forall>name. fault k (UpdateSecret ownerNS name) = None"
  shows "fst (deleteManagedNamespaceFromClusterSecret defaultServer ownerNS sourceNS k) = None
         \<and> secrets (snd (deleteManagedNamespaceFromClusterSecret defaultServer ownerNS sourceNS k))
           = map (\<lambda>s. if matching ownerNS (ArgoCDSecretTypeLabel, ''cluster'') s
                           \<and> dataString s ''server'' = defaultServer
                           \<and> map_of (objData s) ''namespaces'' \<noteq> None
                        then s\<lparr>objData :=
                                snd (removeNamespaceLoop sourceNS
                                       (Split (the (map_of (objData s) ''namespaces'')) CHR '','')
                                       ([], objData s))\<rparr>
                        else s)
               (secrets k)"
proof -
  let ?items = "filter (matching ownerNS (ArgoCDSecretTypeLabel, ''cluster'')) (secrets k)"
  let ?k1 = "issue (ListSecrets ownerNS) k"
  have run: "deleteManagedNamespaceFromClusterSecret defaultServer ownerNS sourceNS k
      = clusterSecretsLoop defaultServer ownerNS sourceNS ?items ?k1"
    using assms(2) by (simp add: deleteManagedNamespaceFromClusterSecret_def listSecrets_def)
  have dist1: "distinct (map (\<lambda>s. (objNamespace s, objName s)) (secrets ?k1))"
    using assms(1) by (simp add: issue_def)
  have faults1: "\<forall>name. fault ?k1 (UpdateSecret ownerNS name) = None"
    using assms(3) by (simp add: issue_def)
  have sub: "set ?items \<subseteq> set (secrets ?k1)"
    by (auto simp: issue_def)
  have owner: "\<forall>x \<in> set ?items. objNamespace x = ownerNS"
    by (simp add: matching_def)
  have inj: "inj_on (\<lambda>s. (objNamespace s, objName s)) (set (secrets k))"
    using assms(1) by (simp add: distinct_map)
  have names: "distinct (map objName ?items)"
  proof -
    have "distinct ?items"
      using assms(1) by (simp add: distinct_map)
    moreover have "inj_on objName (set ?items)"
    proof (rule inj_onI)
      fix a b
      assume "a \<in> set ?items" "b \<in> set ?items" "objName a = objName b"
      then show "a = b"
        using inj by (auto simp: matching_def inj_on_def)
    qed
    ultimately show ?thesis
      by (simp add: distinct_map)
  qed
  have listed: "(objNamespace s = ownerNS \<and> objName s \<in> objName ` set ?items)
              \<longleftrightarrow> matching ownerNS (ArgoCDSecretTypeLabel, ''cluster'') s"
    if "s \<in> set (secrets k)" for s
  proof
    assume "objNamespace s = ownerNS \<and> objName s \<in> objName ` set ?items"
    then obtain y where y: "y \<in> set ?items" "objName y = objName s" "objNamespace s = ownerNS"
      by auto
    then have "y = s"
      using inj that by (auto simp: matching_def inj_on_def)
    with y(1) show "matching ownerNS (ArgoCDSecretTypeLabel, ''cluster'') s"
      by simp
  next
    assume "matching ownerNS (ArgoCDSecretTypeLabel, ''cluster'') s"
    then show "objNamespace s = ownerNS \<and> objName s \<in> objName ` set ?items"
      using that by (auto simp: matching_def)
  qed
  have same: "(objNamespace s = ownerNS \<and> objName s \<in> objName ` set ?items \<and> P)
              \<longleftrightarrow> (matching ownerNS (ArgoCDSecretTypeLabel, ''cluster'') s \<and> P)"
    if "s \<in> set (secrets k)" for s P
    using listed [OF that] by blast
  from clusterSecretsLoop_effect [OF dist1 faults1 sub owner names, of defaultServer sourceNS]
  have effect: "fst (clusterSecretsLoop defaultServer ownerNS sourceNS ?items ?k1) = None"
      "secrets (snd (clusterSecretsLoop defaultServer ownerNS sourceNS ?items ?k1))
         = map (\<lambda>s. if objNamespace s = ownerNS \<and> objName s \<in> objName ` set ?items
                           \<and> dataString s ''server'' = defaultServer
                           \<and> map_of (objData s) ''namespaces'' \<noteq> None
                        then s\<lparr>objData :=
                                snd (removeNamespaceLoop sourceNS
                                       (Split (the (map_of (objData s) ''namespaces'')) CHR '','')
                                       ([], objData s))\<rparr>
                        else s)
             (secrets k)"
    by (simp_all add: issue_def)
  have "map (\<lambda>s. if objNamespace s = ownerNS \<and> objName s \<in> objName ` set ?items
                           \<and> dataString s ''server'' = defaultServer
                           \<and> map_of (objData s) ''namespaces'' \<noteq> None
                        then s\<lparr>objData :=
                                snd (removeNamespaceLoop sourceNS
                                       (Split (the (map_of (objData s) ''namespaces'')) CHR '','')
                                       ([], objData s))\<rparr>
                        else s)
             (secrets k)
       = map (\<lambda>s. if matching ownerNS (ArgoCDSecretTypeLabel, ''cluster'') s
                           \<and> dataString s ''server'' = defaultServer
                           \<and> map_of (objData s) ''namespaces'' \<noteq> None
                        then s\<lparr>objData :=
                                snd (removeNamespaceLoop sourceNS
                                       (Split (the (map_of (objData s) ''namespaces'')) CHR '','')
                                       ([], objData s))\<rparr>
                        else s)
             (secrets k)"
  proof (rule map_cong [OF refl])
    fix s
    assume "s \<in> set (secrets k)"
    from same [OF this]
    show "(if objNamespace s = ownerNS \<and> objName s \<in> objName ` set ?items
                           \<and> dataString s ''server'' = defaultServer
                           \<and> map_of (objData s) ''namespaces'' \<noteq> None
                        then s\<lparr>objData :=
                                snd (removeNamespaceLoop sourceNS
                                       (Split (the (map_of (objData s) ''namespaces'')) CHR '','')
                                       ([], objData s))\<rparr>
                        else s)
        = (if matching ownerNS (ArgoCDSecretTypeLabel, ''cluster'') s
                           \<and> dataString s ''server'' = defaultServer
                           \<and> map_of (objData s) ''namespaces'' \<noteq> None
                        then s\<lparr>objData :=
                                snd (removeNamespaceLoop sourceNS
                                       (Split (the (map_of (objData s) ''namespaces'')) CHR '','')
                                       ([], objData s))\<rparr>
                        else s)"
      by (simp only:)
  qed
  with effect show ?thesis
    unfolding run by simp
qed

text \<open>
  Claim C4, as the code has it.  On a namespace delete event the predicate returns
  false, leaves every Role and RoleBinding in place and issues no request that lists or
  deletes Roles or RoleBindings.  When the deleted namespace carries a non-empty
  managed-by label, a client can be built, the List and the Updates of the secrets of
  the managing namespace succeed and secret names are unique there: every cluster
  secret of the managing namespace with the default server whose stored list keeps
  another entry is stored again with the sorted, comma-joined other entries, among which
  the deleted namespace no longer appears; every secret that is not such a cluster
  secret is left as it was.
\<close>

theorem DeleteFunc_rewrites_secret_only:
  "fst (DeleteFunc defaultServer Object k) = False
   \<and> roles (snd (DeleteFunc defaultServer Object k)) = roles k
   \<and> roleBindings (snd (DeleteFunc defaultServer Object k)) = roleBindings k
   \<and> (\<exists>new. requests (snd (DeleteFunc defaultServer Object k)) = requests k @ new
              \<and> list_all (\<lambda>req. \<not> rbacRequest req) new)
   \<and> (\<forall>ns. map_of (nsLabels Object) ArgoCDManagedByLabel = Some ns \<and> ns \<noteq> []
             \<and> initFault k = None \<and> fault k (ListSecrets ns) = None
             \<and> (\<forall>name. fault k (UpdateSecret ns name) = None)
             \<and> distinct (map (\<lambda>s. (objNamespace s, objName s)) (secrets k)) \<longrightarrow>
          (\<forall>s \<in> set (secrets k).
             (matching ns (ArgoCDSecretTypeLabel, ''cluster'') s
                \<and> dataString s ''server'' = defaultServer \<longrightarrow>
                (\<forall>stored.
                   map_of (objData s) ''namespaces'' = Some stored
                     \<and> filter (\<lambda>n. n \<noteq> nsName Object) (splitList stored) \<noteq> [] \<longrightarrow>
                   (\<exists>s' \<in> set (secrets (snd (DeleteFunc defaultServer Object k))).
                      objNamespace s' = ns \<and> objName s' = objName s
                      \<and> map_of (objData s') ''namespaces''
                          = Some (Join (sort (filter (\<lambda>n. n \<noteq> nsName Object)
                                                (splitList stored))) '','')
                      \<and> nsName Object
                          \<notin> set (splitList (Join (sort (filter (\<lambda>n. n \<noteq> nsName Object)
                                                          (splitList stored))) '','')))))
             \<and> (\<not> (matching ns (ArgoCDSecretTypeLabel, ''cluster'') s
                     \<and> dataString s ''server'' = defaultServer) \<longrightarrow>
                  s \<in> set (secrets (snd (DeleteFunc defaultServer Object k))))))"
proof -
  have general: "fst (DeleteFunc defaultServer Object k) = False
      \<and> roles (snd (DeleteFunc defaultServer Object k)) = roles k
      \<and> roleBindings (snd (DeleteFunc defaultServer Object k)) = roleBindings k
      \<and> (\<exists>new. requests (snd (DeleteFunc defaultServer Object k)) = requests k @ new
              \<and> list_all (\<lambda>req. \<not> rbacRequest req) new)"
  proof (cases "map_of (nsLabels Object) ArgoCDManagedByLabel")
    case None
    then show ?thesis by (simp add: DeleteFunc_def)
  next
    case (Some ns)
    show ?thesis
    proof (cases "ns = [] \<or> initFault k \<noteq> None")
      case True
      then show ?thesis
        using Some by (auto simp: DeleteFunc_def initK8sClient_def logError_def)
    next
      case False
      then have run: "DeleteFunc defaultServer Object k
          = (False, logged_only
                      (deleteManagedNamespaceFromClusterSecret defaultServer ns (nsName Object)) k)"
        using Some by (auto simp: DeleteFunc_def initK8sClient_def)
      show ?thesis
        using deleteManagedNamespaceFromClusterSecret_frame
          [of defaultServer ns "nsName Object" k]
        by (simp add: run logged_only_frame)
    qed
  qed
  have secret_part: "(\<exists>s' \<in> set (secrets (snd (DeleteFunc defaultServer Object k))).
                      objNamespace s' = ns \<and> objName s' = objName s
                      \<and> map_of (objData s') ''namespaces''
                          = Some (Join (sort (filter (\<lambda>n. n \<noteq> nsName Object)
                                                (splitList stored))) '','')
                      \<and> nsName Object
                          \<notin> set (splitList (Join (sort (filter (\<lambda>n. n \<noteq> nsName Object)
                                                          (splitList stored))) '','')))"
    if label: "map_of (nsLabels Object) ArgoCDManagedByLabel = Some ns" "ns \<noteq> []"
      and ok: "initFault k = None" "fault k (ListSecrets ns) = None"
        "\<forall>name. fault k (UpdateSecret ns name) = None"
        "distinct (map (\<lambda>s. (objNamespace s, objName s)) (secrets k))"
      and s: "s \<in> set (secrets k)" "matching ns (ArgoCDSecretTypeLabel, ''cluster'') s"
        "dataString s ''server'' = defaultServer"
      and stored: "map_of (objData s) ''namespaces'' = Some stored"
        "filter (\<lambda>n. n \<noteq> nsName Object) (splitList stored) \<noteq> []"
    for ns s stored
  proof -
    let ?kept = "filter (\<lambda>n. n \<noteq> nsName Object) (splitList stored)"
    let ?s' = "s\<lparr>objData := snd (removeNamespaceLoop (nsName Object)
                                   (Split stored CHR '','') ([], objData s))\<rparr>"
    have run: "secrets (snd (DeleteFunc defaultServer Object k))
        = secrets (snd (deleteManagedNamespaceFromClusterSecret defaultServer ns (nsName Object) k))"
      using label ok(1) by (simp add: DeleteFunc_def initK8sClient_def logged_only_frame)
    note effect = deleteManagedNamespaceFromClusterSecret_effect
      [OF ok(4) ok(2) ok(3), of defaultServer "nsName Object", THEN conjunct2]
    have "?s' \<in> set (secrets (snd (DeleteFunc defaultServer Object k)))"
      unfolding run effect using s stored(1) by (auto simp: image_iff intro!: bexI [of _ s])
    moreover have "objNamespace ?s' = ns" "objName ?s' = objName s"
      using s(2) by (simp_all add: matching_def)
    moreover have "map_of (objData ?s') ''namespaces'' = Some (Join (sort ?kept) '','')"
      using removeNamespaceLoop_some_left [of "nsName Object" stored "objData s"] stored(2)
      by (simp add: splitList_def)
    moreover have "nsName Object \<notin> set (splitList (Join (sort ?kept) '',''))"
      using splitList_Join_kept [OF refl stored(2)] by simp
    ultimately show ?thesis
      by blast
  qed
  have frame_part: "s \<in> set (secrets (snd (DeleteFunc defaultServer Object k)))"
    if label: "map_of (nsLabels Object) ArgoCDManagedByLabel = Some ns" "ns \<noteq> []"
      and ok: "initFault k = None" "fault k (ListSecrets ns) = None"
        "\<forall>name. fault k (UpdateSecret ns name) = None"
        "distinct (map (\<lambda>s. (objNamespace s, objName s)) (secrets k))"
      and s: "s \<in> set (secrets k)"
        "\<not> (matching ns (ArgoCDSecretTypeLabel, ''cluster'') s
            \<and> dataString s ''server'' = defaultServer)"
    for ns s
  proof -
    have run: "secrets (snd (DeleteFunc defaultServer Object k))
        = secrets (snd (deleteManagedNamespaceFromClusterSecret defaultServer ns (nsName Object) k))"
      using label ok(1) by (simp add: DeleteFunc_def initK8sClient_def logged_only_frame)
    note effect = deleteManagedNamespaceFromClusterSecret_effect
      [OF ok(4) ok(2) ok(3), of defaultServer "nsName Object", THEN conjunct2]
    show ?thesis
      unfolding run effect using s by (auto simp: image_iff intro!: bexI [of _ s])
  qed
  from general secret_part frame_part show ?thesis
    by (intro conjI allI impI ballI) (blast+)
qed

lemma predicate_on_example:
  "requests (snd (DeleteFunc ''https://kubernetes.default.svc'' managedNamespaceNs2
       (exampleKube ''https://kubernetes.default.svc'' ''ns1,ns2'')))
     = [ListSecrets ''ns1'', UpdateSecret ''ns1'' ''demo-default-cluster-config'']"
  "map objName (roles (snd (DeleteFunc ''https://kubernetes.default.svc'' managedNamespaceNs2
       (exampleKube ''https://kubernetes.default.svc'' ''ns1,ns2'')))) = [''demo-argocd-server'']"
  "map objName (roleBindings (snd (DeleteFunc ''https://kubernetes.default.svc'' managedNamespaceNs2
       (exampleKube ''https://kubernetes.default.svc'' ''ns1,ns2'')))) = [''demo-argocd-server'']"
  "map (\<lambda>secret. dataString secret ''namespaces'')
     (secrets (snd (DeleteFunc ''https://kubernetes.default.svc'' managedNamespaceNs2
       (exampleKube ''https://kubernetes.default.svc'' ''ns1,ns2'')))) = [''ns1'']"
  "requests (snd (UpdateFunc ''https://kubernetes.default.svc'' managedNamespaceNs2
       (managedNamespaceNs2\<lparr>nsLabels := []\<rparr>)
       (exampleKube ''https://kubernetes.default.svc'' ''ns1,ns2'')))
     = [ListRoles ''ns2'', DeleteRole ''ns2'' ''demo-argocd-server'',
        ListRoleBindings ''ns2'', DeleteRoleBinding ''ns2'' ''demo-argocd-server'',
        ListSecrets ''ns1'', UpdateSecret ''ns1'' ''demo-default-cluster-config'']"
  "roles (snd (UpdateFunc ''https://kubernetes.default.svc'' managedNamespaceNs2
       (managedNamespaceNs2\<lparr>nsLabels := []\<rparr>)
       (exampleKube ''https://kubernetes.default.svc'' ''ns1,ns2''))) = []"
  "roleBindings (snd (UpdateFunc ''https://kubernetes.default.svc'' managedNamespaceNs2
       (managedNamespaceNs2\<lparr>nsLabels := []\<rparr>)
       (exampleKube ''https://kubernetes.default.svc'' ''ns1,ns2''))) = []"
  "map (\<lambda>secret. dataString secret ''namespaces'')
     (secrets (snd (UpdateFunc ''https://kubernetes.default.svc'' managedNamespaceNs2
       (managedNamespaceNs2\<lparr>nsLabels := []\<rparr>)
       (exampleKube ''https://kubernetes.default.svc'' ''ns1,ns2'')))) = [''ns1'']"
  by code_simp+

lemma predicate_on_emptied:
  "requests (snd (DeleteFunc ''https://kubernetes.default.svc'' managedNamespaceNs2
       (emptiedKube ''https://kubernetes.default.svc'' ''ns1, ns2'')))
     = [ListSecrets ''ns1'', UpdateSecret ''ns1'' ''demo-default-cluster-config'']"
  "map (\<lambda>secret. dataString secret ''namespaces'')
     (secrets (snd (DeleteFunc ''https://kubernetes.default.svc'' managedNamespaceNs2
       (emptiedKube ''https://kubernetes.default.svc'' ''ns1, ns2'')))) = [''ns1'']"
  "requests (snd (UpdateFunc ''https://kubernetes.default.svc'' managedNamespaceNs2
       (managedNamespaceNs2\<lparr>nsLabels := []\<rparr>)
       (emptiedKube ''https://kubernetes.default.svc'' ''ns1, ns2'')))
     = [ListRoles ''ns2'', ListRoleBindings ''ns2'',
        ListSecrets ''ns1'', UpdateSecret ''ns1'' ''demo-default-cluster-config'']"
  "map (\<lambda>secret. dataString secret ''namespaces'')
     (secrets (snd (UpdateFunc ''https://kubernetes.default.svc'' managedNamespaceNs2
       (managedNamespaceNs2\<lparr>nsLabels := []\<rparr>)
       (emptiedKube ''https://kubernetes.default.svc'' ''ns1, ns2'')))) = [''ns1'']"
  by code_simp+

text \<open>
  The delete event of \<open>ns2\<close>, managed by \<open>ns1\<close>, once \<open>ns2\<close> is empty: the predicate
  returns false, asks for the secrets of \<open>ns1\<close> only, and the cluster secret that listed
  \<open>ns1, ns2\<close> now lists \<open>ns1\<close>.
\<close>

theorem DeleteFunc_rewrites_secret_only_witness:
  "map_of (nsLabels managedNamespaceNs2) ArgoCDManagedByLabel = Some ''ns1''
   \<and> initFault (emptiedKube ''https://kubernetes.default.svc'' ''ns1, ns2'') = None
   \<and> distinct (map (\<lambda>s. (objNamespace s, objName s))
        (secrets (emptiedKube ''https://kubernetes.default.svc'' ''ns1, ns2'')))
   \<and> filter (\<lambda>n. n \<noteq> nsName managedNamespaceNs2) (splitList ''ns1, ns2'') = [''ns1'']
   \<and> fst (DeleteFunc ''https://kubernetes.default.svc'' managedNamespaceNs2
            (emptiedKube ''https://kubernetes.default.svc'' ''ns1, ns2'')) = False
   \<and> requests (snd (DeleteFunc ''https://kubernetes.default.svc'' managedNamespaceNs2
            (emptiedKube ''https://kubernetes.default.svc'' ''ns1, ns2'')))
      = [ListSecrets ''ns1'', UpdateSecret ''ns1'' ''demo-default-cluster-config'']
   \<and> map (\<lambda>secret. dataString secret ''namespaces'')
        (secrets (snd (DeleteFunc ''https://kubernetes.default.svc'' managedNamespaceNs2
            (emptiedKube ''https://kubernetes.default.svc'' ''ns1, ns2'')))) = [''ns1'']"
proof -
  have returns: "fst (DeleteFunc ''https://kubernetes.default.svc'' managedNamespaceNs2
            (emptiedKube ''https://kubernetes.default.svc'' ''ns1, ns2'')) = False"
    using DeleteFunc_rewrites_secret_only
      [of "''https://kubernetes.default.svc''" managedNamespaceNs2
          "emptiedKube ''https://kubernetes.default.svc'' ''ns1, ns2''"]
    by (rule conjunct1)
  have label: "map_of (nsLabels managedNamespaceNs2) ArgoCDManagedByLabel = Some ''ns1''"
    by (simp add: managedNamespaceNs2_def ArgoCDManagedByLabel_def)
  have state: "initFault (emptiedKube ''https://kubernetes.default.svc'' ''ns1, ns2'') = None"
      "distinct (map (\<lambda>s. (objNamespace s, objName s))
        (secrets (emptiedKube ''https://kubernetes.default.svc'' ''ns1, ns2'')))"
    by (simp_all add: emptiedKube_def exampleKube_def)
  have kept: "filter (\<lambda>n. n \<noteq> nsName managedNamespaceNs2) (splitList ''ns1, ns2'') = [''ns1'']"
    by code_simp
  from label state kept returns predicate_on_emptied(1,2) show ?thesis
    by (intro conjI)
qed

text \<open>
  Claim C4 as stated fails: the delete event does not perform the cleanup of a label
  change.  For \<open>ns2\<close> managed by \<open>ns1\<close>, with nothing left inside \<open>ns2\<close>, losing the
  label asks for the Roles and the RoleBindings of \<open>ns2\<close> and rewrites the cluster
  secret, while the delete event asks for neither and only rewrites the cluster secret.
  Where a Role and a RoleBinding are still stored in \<open>ns2\<close>, losing the label deletes
  both and the delete event leaves both.
\<close>

theorem DeleteFunc_same_cleanup_counterexample:
  "requests (snd (UpdateFunc ''https://kubernetes.default.svc'' managedNamespaceNs2
       (managedNamespaceNs2\<lparr>nsLabels := []\<rparr>)
       (emptiedKube ''https://kubernetes.default.svc'' ''ns1, ns2'')))
     = [ListRoles ''ns2'', ListRoleBindings ''ns2'',
        ListSecrets ''ns1'', UpdateSecret ''ns1'' ''demo-default-cluster-config'']
   \<and> requests (snd (DeleteFunc ''https://kubernetes.default.svc'' managedNamespaceNs2
       (emptiedKube ''https://kubernetes.default.svc'' ''ns1, ns2'')))
     = [ListSecrets ''ns1'', UpdateSecret ''ns1'' ''demo-default-cluster-config'']
   \<and> roles (snd (UpdateFunc ''https://kubernetes.default.svc'' managedNamespaceNs2
       (managedNamespaceNs2\<lparr>nsLabels := []\<rparr>)
       (exampleKube ''https://kubernetes.default.svc'' ''ns1,ns2''))) = []
   \<and> roleBindings (snd (UpdateFunc ''https://kubernetes.default.svc'' managedNamespaceNs2
       (managedNamespaceNs2\<lparr>nsLabels := []\<rparr>)
       (exampleKube ''https://kubernetes.default.svc'' ''ns1,ns2''))) = []
   \<and> map objName (roles (snd (DeleteFunc ''https://kubernetes.default.svc'' managedNamespaceNs2
       (exampleKube ''https://kubernetes.default.svc'' ''ns1,ns2'')))) = [''demo-argocd-server'']
   \<and> map objName (roleBindings (snd (DeleteFunc ''https://kubernetes.default.svc''
       managedNamespaceNs2 (exampleKube ''https://kubernetes.default.svc'' ''ns1,ns2''))))
      = [''demo-argocd-server'']"
  by (simp add: predicate_on_example predicate_on_emptied)

subsection \<open>Ordered reconcilers\<close>

lemma untilFirstError_append:
  "untilFirstError outcome (xs @ ys) calls =
     (case untilFirstError outcome xs calls of
        (Some err, calls') \<Rightarrow> (Some err, calls')
      | (None, calls') \<Rightarrow> untilFirstError outcome ys calls')"
  by (induction xs arbitrary: calls) (simp_all split: option.splits)

lemma untilFirstError_all_ok:
  "\<forall>s \<in> set steps. outcome s = None \<Longrightarrow> untilFirstError outcome steps calls = (None, calls @ steps)"
  by (induction steps arbitrary: calls) simp_all

lemma untilFirstError_first_failure:
  "\<forall>p \<in> set pre. outcome p = None \<Longrightarrow> outcome st = Some err \<Longrightarrow>
     untilFirstError outcome (pre @ st # post) calls = (Some err, calls @ pre @ [st])"
  by (simp add: untilFirstError_append untilFirstError_all_ok)

lemma reconcileResources_untilFirstError:
  "reconcileResources outcome caps cr calls
     = untilFirstError outcome (reconcileOrder caps cr) calls"
  by (simp add: reconcileResources_def reconcileOrder_def reconcileCertificateAuthority_def
      whenever_def andThen_def invoke_def succeed_def IsRouteAPIAvailable_def
      IsPrometheusAPIAvailable_def split: option.splits)

lemma reconcileResources_all_ok:
  "reconcileResources (\<lambda>s. None) initialCapabilities exampleInstance []
     = (None,
        [reconcileStatus, reconcileRoles, reconcileRoleBindings, reconcileServiceAccounts,
         reconcileCASecret, reconcileCAConfigMap, reconcileSecrets, reconcileConfigMaps,
         reconcileServices, reconcileDeployments, reconcileStatefulSets,
         reconcileAutoscalers, reconcileIngresses, reconcileRepoServerTLSSecret])"
  by (simp add: reconcileResources_untilFirstError reconcileOrder_def initialCapabilities_def
      exampleInstance_def)

text \<open>
  Both functions of \<open>ServerReconciler\<close> stop at the first failing step, whatever the
  outcomes: \<open>Reconcile\<close> on a live namespace walks service account, cluster role,
  cluster role binding, roles, role bindings, deployment, service, autoscaler, ingresses
  and route; \<open>DeleteResources\<close> walks the same kinds backwards.
\<close>

lemma Reconcile_until_first_error:
  "Reconcile outcome (Inr False) routeAvailable calls
     = untilFirstError outcome
         (map Reconciles
            ([ServiceAccount, ClusterRole, ClusterRoleBinding, Roles, RoleBindings, Deployment,
              Service, HorizontalPodAutoscaler, Ingresses]
             @ (if routeAvailable then [Route] else [])))
         calls"
  by (simp add: Reconcile_def whenever_def andThen_def invoke_def succeed_def
      split: option.splits)

lemma DeleteResources_until_first_error:
  "DeleteResources outcome routeAvailable calls
     = untilFirstError outcome
         (map Deletes
            (rev ([ServiceAccount, ClusterRole, ClusterRoleBinding, Roles, RoleBindings,
                   Deployment, Service, HorizontalPodAutoscaler, Ingresses]
                  @ (if routeAvailable then [Route] else []))))
         calls"
  by (simp add: DeleteResources_def whenever_def andThen_def invoke_def succeed_def
      split: option.splits)

lemma Reconcile_of_deleting_namespace:
  "Reconcile outcome (Inr True) routeAvailable = DeleteResources outcome routeAvailable"
  by (simp add: Reconcile_def)

text \<open>
  Claim C5, as the code has it.  In \<open>ServerReconciler.Reconcile\<close> on a live namespace
  the reconcilers are invoked in the fixed order service account, cluster role, cluster
  role binding, roles, role bindings, deployment, service, horizontal pod autoscaler,
  ingresses, and last the route when the Route API is available.  In
  \<open>reconcileResources\<close> the fixed order is status, roles, role bindings, service
  accounts, certificate authority (secret, config map), secrets, config maps, services,
  deployments, stateful sets, autoscalers, ingresses, then routes when the Route API was
  found, Prometheus and the three service monitors when the Prometheus API was found,
  the ApplicationSet controller when the instance asks for it, the repo-server TLS
  secret, and SSO when the instance asks for it.  In both, when all succeed all are
  invoked and the result is nil; the first reconciler that returns an error is the last
  one invoked, and its error is returned.
\<close>

theorem reconcile_passes_fixed_order:
  "((\<forall>x \<in> set (serverOrder routeAvailable). result (Reconciles x) = None) \<longrightarrow>
      Reconcile result (Inr False) routeAvailable ops
        = (None, ops @ map Reconciles (serverOrder routeAvailable)))
   \<and> (\<forall>pre x post err.
         serverOrder routeAvailable = pre @ x # post
           \<and> (\<forall>p \<in> set pre. result (Reconciles p) = None)
           \<and> result (Reconciles x) = Some err \<longrightarrow>
         Reconcile result (Inr False) routeAvailable ops
           = (Some err, ops @ map Reconciles pre @ [Reconciles x]))
   \<and> serverOrder True
       = [ServiceAccount, ClusterRole, ClusterRoleBinding, Roles, RoleBindings, Deployment,
          Service, HorizontalPodAutoscaler, Ingresses, Route]
   \<and> ((\<forall>s \<in> set (reconcileOrder caps cr). outcome s = None) \<longrightarrow>
      reconcileResources outcome caps cr calls = (None, calls @ reconcileOrder caps cr))
   \<and> (\<forall>pre st post err.
         reconcileOrder caps cr = pre @ st # post \<and> (\<forall>p \<in> set pre. outcome p = None)
           \<and> outcome st = Some err \<longrightarrow>
         reconcileResources outcome caps cr calls = (Some err, calls @ pre @ [st]))"
proof -
  have server: "Reconcile result (Inr False) routeAvailable ops
      = untilFirstError result (map Reconciles (serverOrder routeAvailable)) ops"
    unfolding serverOrder_def by (rule Reconcile_until_first_error)
  have server_ok: "Reconcile result (Inr False) routeAvailable ops
        = (None, ops @ map Reconciles (serverOrder routeAvailable))"
    if "\<forall>x \<in> set (serverOrder routeAvailable). result (Reconciles x) = None"
    unfolding server using that by (intro untilFirstError_all_ok) simp
  have server_fails: "Reconcile result (Inr False) routeAvailable ops
           = (Some err, ops @ map Reconciles pre @ [Reconciles x])"
    if "serverOrder routeAvailable = pre @ x # post"
      "\<forall>p \<in> set pre. result (Reconciles p) = None" "result (Reconciles x) = Some err"
    for pre x post err
  proof -
    have "untilFirstError result (map Reconciles pre @ Reconciles x # map Reconciles post) ops
        = (Some err, ops @ map Reconciles pre @ [Reconciles x])"
      using that(2,3) by (intro untilFirstError_first_failure) simp_all
    then show ?thesis
      unfolding server that(1) by simp
  qed
  have listed: "serverOrder True
       = [ServiceAccount, ClusterRole, ClusterRoleBinding, Roles, RoleBindings, Deployment,
          Service, HorizontalPodAutoscaler, Ingresses, Route]"
    by (simp add: serverOrder_def)
  have resources_ok: "reconcileResources outcome caps cr calls
        = (None, calls @ reconcileOrder caps cr)"
    if "\<forall>s \<in> set (reconcileOrder caps cr). outcome s = None"
    using that by (simp add: reconcileResources_untilFirstError untilFirstError_all_ok)
  have resources_fail: "reconcileResources outcome caps cr calls = (Some err, calls @ pre @ [st])"
    if "reconcileOrder caps cr = pre @ st # post" "\<forall>p \<in> set pre. outcome p = None"
      "outcome st = Some err"
    for pre st post err
    using that by (simp add: reconcileResources_untilFirstError untilFirstError_first_failure)
  from server_ok server_fails listed resources_ok resources_fail show ?thesis
    by (intro conjI allI impI) (blast+)
qed

text \<open>
  Both orders at an instance without ApplicationSet and SSO: passes where everything
  succeeds, and passes where the services reconciler fails.
\<close>

theorem reconcile_passes_fixed_order_witness:
  "Reconcile (\<lambda>op. None) (Inr False) True []
     = (None, map Reconciles [ServiceAccount, ClusterRole, ClusterRoleBinding, Roles,
                RoleBindings, Deployment, Service, HorizontalPodAutoscaler, Ingresses, Route])
   \<and> Reconcile (\<lambda>op. if op = Reconciles Service then Some (ApiError ''conflict'') else None)
        (Inr False) True []
     = (Some (ApiError ''conflict''),
        map Reconciles [ServiceAccount, ClusterRole, ClusterRoleBinding, Roles, RoleBindings,
                Deployment, Service])
   \<and> reconcileResources (\<lambda>s. None) initialCapabilities exampleInstance []
     = (None, reconcileOrder initialCapabilities exampleInstance)
   \<and> reconcileResources
        (\<lambda>s. if s = reconcileServices then Some (ApiError ''conflict'') else None)
        initialCapabilities exampleInstance []
     = (Some (ApiError ''conflict''),
        [reconcileStatus, reconcileRoles, reconcileRoleBindings, reconcileServiceAccounts,
         reconcileCASecret, reconcileCAConfigMap, reconcileSecrets, reconcileConfigMaps,
         reconcileServices])"
proof -
  let ?failing = "\<lambda>op. if op = Reconciles Service then Some (ApiError ''conflict'') else None"
  let ?outcome = "\<lambda>s. if s = reconcileServices then Some (ApiError ''conflict'') else None"
  let ?pre = "[reconcileStatus, reconcileRoles, reconcileRoleBindings, reconcileServiceAccounts,
         reconcileCASecret, reconcileCAConfigMap, reconcileSecrets, reconcileConfigMaps]"
  let ?before = "[ServiceAccount, ClusterRole, ClusterRoleBinding, Roles, RoleBindings, Deployment]"
  note all_ok = reconcile_passes_fixed_order
    [of True "\<lambda>op. None" "[]" initialCapabilities exampleInstance "\<lambda>s. None" "[]"]
  note one_fails = reconcile_passes_fixed_order
    [of True ?failing "[]" initialCapabilities exampleInstance ?outcome "[]"]
  have server_order: "serverOrder True
      = ?before @ Service # [HorizontalPodAutoscaler, Ingresses, Route]"
    by (simp add: serverOrder_def)
  have order: "reconcileOrder initialCapabilities exampleInstance
      = ?pre @ reconcileServices
        # [reconcileDeployments, reconcileStatefulSets, reconcileAutoscalers,
           reconcileIngresses, reconcileRepoServerTLSSecret]"
    by (simp add: reconcileOrder_def initialCapabilities_def exampleInstance_def)
  have "Reconcile (\<lambda>op. None) (Inr False) True []
      = (None, [] @ map Reconciles (serverOrder True))"
    using all_ok by blast
  then have server_ok: "Reconcile (\<lambda>op. None) (Inr False) True []
     = (None, map Reconciles [ServiceAccount, ClusterRole, ClusterRoleBinding, Roles,
                RoleBindings, Deployment, Service, HorizontalPodAutoscaler, Ingresses, Route])"
    by (simp add: serverOrder_def)
  have before_ok: "\<forall>p \<in> set ?before. ?failing (Reconciles p) = None"
    by simp
  have service_fails: "?failing (Reconciles Service) = Some (ApiError ''conflict'')"
    by simp
  have "Reconcile ?failing (Inr False) True []
      = (Some (ApiError ''conflict''), [] @ map Reconciles ?before @ [Reconciles Service])"
    using one_fails server_order before_ok service_fails by blast
  then have server_fails: "Reconcile ?failing (Inr False) True []
     = (Some (ApiError ''conflict''),
        map Reconciles [ServiceAccount, ClusterRole, ClusterRoleBinding, Roles, RoleBindings,
                Deployment, Service])"
    by simp
  have ok: "reconcileResources (\<lambda>s. None) initialCapabilities exampleInstance []
      = (None, [] @ reconcileOrder initialCapabilities exampleInstance)"
    using all_ok by blast
  have pre_ok: "\<forall>p \<in> set ?pre. ?outcome p = None"
    by simp
  have fails: "?outcome reconcileServices = Some (ApiError ''conflict'')"
    by simp
  have failing: "reconcileResources ?outcome initialCapabilities exampleInstance []
      = (Some (ApiError ''conflict''), [] @ ?pre @ [reconcileServices])"
    using one_fails order pre_ok fails by blast
  from server_ok server_fails ok failing show ?thesis
    by simp
qed

text \<open>
  Claim C5 as stated fails on \<open>reconcileResources\<close>: in a pass where every reconciler
  succeeds, service accounts are not reconciled before roles (roles and role bindings
  come first), and deployments are not reconciled before services.
\<close>

theorem reconcileResources_order_counterexample:
  "\<not> precedes reconcileServiceAccounts reconcileRoles
        (snd (reconcileResources (\<lambda>s. None) initialCapabilities exampleInstance []))
   \<and> precedes reconcileRoles reconcileServiceAccounts
        (snd (reconcileResources (\<lambda>s. None) initialCapabilities exampleInstance []))
   \<and> \<not> precedes reconcileDeployments reconcileServices
        (snd (reconcileResources (\<lambda>s. None) initialCapabilities exampleInstance []))
   \<and> precedes reconcileServices reconcileDeployments
        (snd (reconcileResources (\<lambda>s. None) initialCapabilities exampleInstance []))"
  by (simp add: reconcileResources_all_ok precedes_def)

text \<open>
  Claim C6.  When every step succeeds, \<open>DeleteResources\<close> deletes the resource kinds in
  the reverse of the order in which \<open>Reconcile\<close> (on a live namespace) reconciles them:
  route, ingresses, horizontal pod autoscaler, service, deployment, role bindings, roles,
  cluster role binding, cluster role, service account; the route comes first on delete
  and last on reconcile, and both only when the Route API is available.
\<close>

theorem DeleteResources_reverses_Reconcile:
  "(\<forall>op. outcome op = None) \<longrightarrow>
     fst (Reconcile outcome (Inr False) routeAvailable []) = None
     \<and> fst (DeleteResources outcome routeAvailable []) = None
     \<and> snd (Reconcile outcome (Inr False) routeAvailable [])
         = map Reconciles (map resourceOf (snd (Reconcile outcome (Inr False) routeAvailable [])))
     \<and> snd (DeleteResources outcome routeAvailable [])
         = map Deletes (rev (map resourceOf (snd (Reconcile outcome (Inr False) routeAvailable []))))
     \<and> snd (DeleteResources outcome True [])
         = map Deletes [Route, Ingresses, HorizontalPodAutoscaler, Service, Deployment,
                        RoleBindings, Roles, ClusterRoleBinding, ClusterRole, ServiceAccount]
     \<and> snd (DeleteResources outcome False [])
         = map Deletes [Ingresses, HorizontalPodAutoscaler, Service, Deployment,
                        RoleBindings, Roles, ClusterRoleBinding, ClusterRole, ServiceAccount]"
  by (simp add: Reconcile_def DeleteResources_def whenever_def andThen_def invoke_def
      succeed_def)

text \<open>The claim with every step succeeding and the Route API available.\<close>

theorem DeleteResources_reverses_Reconcile_witness:
  "Reconcile (\<lambda>op. None) (Inr False) True []
     = (None, map Reconciles [ServiceAccount, ClusterRole, ClusterRoleBinding, Roles,
                RoleBindings, Deployment, Service, HorizontalPodAutoscaler, Ingresses, Route])
   \<and> DeleteResources (\<lambda>op. None) True []
     = (None, map Deletes (rev [ServiceAccount, ClusterRole, ClusterRoleBinding, Roles,
                RoleBindings, Deployment, Service, HorizontalPodAutoscaler, Ingresses, Route]))"
  using DeleteResources_reverses_Reconcile [of "\<lambda>op. None" True]
  by (simp add: Reconcile_def DeleteResources_def whenever_def andThen_def invoke_def
      succeed_def)

end
